theory Spec2Isabelle
  imports Complex_Main
begin

unbundle bit_operations_syntax

section \<open>Data model\<close>

text \<open>
  Python floats are modelled as \<^typ>\<open>real\<close>: every arithmetic operation is the exact
  one, without rounding. Zone and action names are the strings the source uses, and
  Python's \<open>None\<close> is \<^term>\<open>None\<close>.
\<close>

type_synonym point = "real \<times> real"

text \<open>\<open>@dataclass DwellState\<close> (main.py, lines 20-24).\<close>

record DwellState =
  active_zone :: "string option"
  start_ts :: real
  last_fire_ts :: real

definition DwellState_init :: DwellState where
  "DwellState_init = \<lparr>active_zone = None, start_ts = 0, last_fire_ts = 0\<rparr>"

text \<open>\<open>class GazeSmoother\<close> (main.py, lines 49-53); the field \<open>last\<close> is \<open>last_pt\<close>.\<close>

record GazeSmoother =
  alpha :: real
  outlier_px :: real
  last_pt :: "point option"

definition GazeSmoother_init :: "real \<Rightarrow> real \<Rightarrow> GazeSmoother" where
  "GazeSmoother_init a outl = \<lparr>alpha = a, outlier_px = outl, last_pt = None\<rparr>"

section \<open>GazeSmoother.update\<close>

text \<open>\<open>np.linalg.norm\<close> of a two-component vector.\<close>

definition norm2 :: "point \<Rightarrow> real" where
  "norm2 v = sqrt ((fst v)\<^sup>2 + (snd v)\<^sup>2)"

text \<open>
  \<open>GazeSmoother.update\<close> (main.py, lines 55-68). The result is the returned point and
  the smoother after the call.
\<close>

definition update :: "GazeSmoother \<Rightarrow> point \<Rightarrow> point \<times> GazeSmoother" where
  "update s p =
     (case last_pt s of
        None \<Rightarrow> (p, s\<lparr>last_pt := Some p\<rparr>)
      | Some l \<Rightarrow>
          let dist = norm2 (fst p - fst l, snd p - snd l) in
          if dist > outlier_px s then (l, s)
          else
            let smoothed = (alpha s * fst p + (1 - alpha s) * fst l,
                            alpha s * snd p + (1 - alpha s) * snd l)
            in (smoothed, s\<lparr>last_pt := Some smoothed\<rparr>))"

section \<open>ScrollController\<close>

text \<open>
  The effects of the program on its surroundings, in the order they happen: the calls
  into \<open>windll.user32\<close> with their arguments, and the configuration written to
  \<open>config.json\<close> by \<open>json.dump\<close> (the calibration part of it).
\<close>

type_synonym mat23 = "(real \<times> real \<times> real) \<times> (real \<times> real \<times> real)"
type_synonym mat32 = "(real \<times> real) \<times> (real \<times> real) \<times> (real \<times> real)"

datatype effect =
    mouse_event int int int int int
  | keybd_event int int int int
  | json_dump "mat23 option"

definition VK_SHIFT :: int where "VK_SHIFT = 0x10"
definition KEYEVENTF_KEYUP :: int where "KEYEVENTF_KEYUP = 0x0002"

text \<open>
  \<open>class ScrollController\<close> (main.py, lines 27-46); its method \<open>scroll\<close> is
  \<open>scroll_delta\<close>, since the controller's field has the name \<open>scroll\<close>.
\<close>

record ScrollController =
  amount :: int
  interval_ms :: int

definition scroll_delta :: "int \<Rightarrow> effect list" where
  "scroll_delta delta = [mouse_event 0x0800 0 0 delta 0]"

definition scroll_up :: "ScrollController \<Rightarrow> effect list" where
  "scroll_up sc = scroll_delta (amount sc)"

definition scroll_down :: "ScrollController \<Rightarrow> effect list" where
  "scroll_down sc = scroll_delta (- amount sc)"

definition scroll_right :: "ScrollController \<Rightarrow> effect list" where
  "scroll_right sc =
     [keybd_event VK_SHIFT 0 0 0] @ scroll_delta (- amount sc) @
     [keybd_event VK_SHIFT 0 KEYEVENTF_KEYUP 0]"

section \<open>EyeTrackerController\<close>

text \<open>
  The configuration dictionary, with the keys the controller reads. The optional keys
  \<open>show_preview\<close>, \<open>calibration.enabled\<close> and \<open>calibration.matrix\<close> hold what
  \<open>config.get\<close> returns for them.
\<close>

record Config =
  screen_width :: real
  screen_height :: real
  dwell_threshold_ms :: real
  dwell_cooldown_ms :: real
  zones_top_px :: real
  zones_bottom_px :: real
  zones_right_px :: real
  scroll_amount :: int
  scroll_interval_ms :: int
  smoothing_ema_alpha :: real
  smoothing_outlier_px :: real
  config_show_preview :: bool
  calibration_enabled :: bool
  calibration_matrix_cfg :: "mat23 option"

text \<open>
  The fields of \<open>EyeTrackerController\<close> (main.py, lines 72-90). \<open>dwell_cfg\<close> and
  \<open>zones\<close> are the sub-dictionaries of the configuration, which nothing writes after
  start-up; their entries are the fields \<open>threshold_ms\<close>, \<open>cooldown_ms\<close>, \<open>top_px\<close>,
  \<open>bottom_px\<close> and \<open>right_px\<close>.
\<close>

record EyeTrackerController =
  screen_w :: real
  screen_h :: real
  threshold_ms :: real
  cooldown_ms :: real
  top_px :: real
  bottom_px :: real
  right_px :: real
  scroll :: ScrollController
  smoother :: GazeSmoother
  dwell :: DwellState
  enabled :: bool
  menu_dwell :: DwellState
  show_preview :: bool
  calibration_on :: bool
  calibration_matrix :: "mat23 option"

datatype error = RuntimeError string | ZeroDivisionError | OverflowError

text \<open>
  \<open>EyeTrackerController.__init__\<close> (main.py, lines 72-102); the argument
  \<open>has_solutions\<close> is \<open>hasattr(mp, "solutions")\<close>.
\<close>

definition EyeTrackerController_init :: "bool \<Rightarrow> Config \<Rightarrow> error + EyeTrackerController" where
  "EyeTrackerController_init has_solutions cfg =
     (if \<not> has_solutions
      then Inl (RuntimeError ''MediaPipe 'solutions' not available. Reinstall with mediapipe==0.10.9.'')
      else Inr \<lparr>screen_w = screen_width cfg, screen_h = screen_height cfg,
                threshold_ms = dwell_threshold_ms cfg, cooldown_ms = dwell_cooldown_ms cfg,
                top_px = zones_top_px cfg, bottom_px = zones_bottom_px cfg,
                right_px = zones_right_px cfg,
                scroll = \<lparr>amount = scroll_amount cfg, interval_ms = scroll_interval_ms cfg\<rparr>,
                smoother = GazeSmoother_init (smoothing_ema_alpha cfg) (smoothing_outlier_px cfg),
                dwell = DwellState_init, enabled = True, menu_dwell = DwellState_init,
                show_preview = config_show_preview cfg,
                calibration_on = calibration_enabled cfg,
                calibration_matrix = calibration_matrix_cfg cfg\<rparr>)"

text \<open>
  \<open>_compute_iris_center\<close> (main.py, lines 104-117). The landmarks of a face are a
  function from the landmark index to the normalised coordinates \<open>(p.x, p.y)\<close>.
\<close>

type_synonym landmarks = "nat \<Rightarrow> point"

definition center :: "landmarks \<Rightarrow> nat list \<Rightarrow> nat \<Rightarrow> nat \<Rightarrow> point" where
  "center lm ids image_w image_h =
     (let xs = map (\<lambda>i. fst (lm i) * real image_w) ids;
          ys = map (\<lambda>i. snd (lm i) * real image_h) ids
      in (sum_list xs / real (length xs), sum_list ys / real (length ys)))"

definition compute_iris_center :: "landmarks \<Rightarrow> nat \<Rightarrow> nat \<Rightarrow> point" where
  "compute_iris_center lm image_w image_h =
     (let left = center lm [474, 475, 476, 477] image_w image_h;
          right = center lm [469, 470, 471, 472] image_w image_h
      in ((fst left + fst right) / 2, (snd left + snd right) / 2))"

text \<open>\<open>np.clip\<close> on a scalar and \<open>np.dot\<close> of a 2x3 matrix with a 3-vector.\<close>

definition clip :: "real \<Rightarrow> real \<Rightarrow> real \<Rightarrow> real" where
  "clip a lo hi = min (max a lo) hi"

definition dot :: "mat23 \<Rightarrow> real \<times> real \<times> real \<Rightarrow> point" where
  "dot M v =
     (case M of ((a, b, c), (d, e, f)) \<Rightarrow>
        (case v of (x, y, z) \<Rightarrow> (a * x + b * y + c * z, d * x + e * y + f * z)))"

text \<open>
  \<open>_map_to_screen\<close> (main.py, lines 119-129). The raw coordinates are Python floats, so
  dividing by a frame dimension of 0 raises.
\<close>

definition map_to_screen :: "EyeTrackerController \<Rightarrow> point \<Rightarrow> nat \<Rightarrow> nat \<Rightarrow> error + point" where
  "map_to_screen c gaze_xy frame_w frame_h =
     (case calibration_matrix c of
        Some M \<Rightarrow> Inr (dot M (fst gaze_xy, snd gaze_xy, 1))
      | None \<Rightarrow>
          if frame_w = 0 \<or> frame_h = 0 then Inl ZeroDivisionError
          else
            let x = clip (fst gaze_xy / real frame_w) 0 1;
                y = clip (snd gaze_xy / real frame_h) 0 1
            in Inr (x * screen_w c, y * screen_h c))"

text \<open>\<open>_zone_for_point\<close> (main.py, lines 131-138).\<close>

definition zone_for_point :: "EyeTrackerController \<Rightarrow> real \<Rightarrow> real \<Rightarrow> string option" where
  "zone_for_point c x y =
     (if y \<le> top_px c then Some ''scroll_up''
      else if y \<ge> screen_h c - bottom_px c then Some ''scroll_down''
      else if x \<ge> screen_w c - right_px c then Some ''scroll_right''
      else None)"

text \<open>
  \<open>_process_dwell\<close> (main.py, lines 140-162): the controller after the call and the
  calls the scroll controller made.
\<close>

definition process_dwell ::
  "EyeTrackerController \<Rightarrow> string option \<Rightarrow> real \<Rightarrow> EyeTrackerController \<times> effect list" where
  "process_dwell c zone now =
     (let threshold = threshold_ms c / 1000;
          cooldown = cooldown_ms c / 1000
      in if zone \<noteq> active_zone (dwell c)
         then (c\<lparr>dwell := (dwell c)\<lparr>active_zone := zone, start_ts := now\<rparr>\<rparr>, [])
         else if zone = None then (c, [])
         else if now - last_fire_ts (dwell c) < cooldown then (c, [])
         else if now - start_ts (dwell c) \<ge> threshold
         then (c\<lparr>dwell := (dwell c)\<lparr>last_fire_ts := now\<rparr>\<rparr>,
               if zone = Some ''scroll_up'' then scroll_up (scroll c)
               else if zone = Some ''scroll_down'' then scroll_down (scroll c)
               else if zone = Some ''scroll_right'' then scroll_right (scroll c)
               else [])
         else (c, []))"

text \<open>
  \<open>_process_menu_dwell\<close> (main.py, lines 164-175): the returned flag and the controller
  after the call.
\<close>

definition process_menu_dwell ::
  "EyeTrackerController \<Rightarrow> string option \<Rightarrow> real \<Rightarrow> bool \<times> EyeTrackerController" where
  "process_menu_dwell c action now =
     (let threshold = threshold_ms c / 1000
      in if action \<noteq> active_zone (menu_dwell c)
         then (False, c\<lparr>menu_dwell := (menu_dwell c)\<lparr>active_zone := action, start_ts := now\<rparr>\<rparr>)
         else if action = None then (False, c)
         else if now - start_ts (menu_dwell c) \<ge> threshold
         then (True, c\<lparr>menu_dwell := (menu_dwell c)\<lparr>active_zone := None\<rparr>\<rparr>)
         else (False, c))"

section \<open>CircularMenuOverlay\<close>

text \<open>
  \<open>class CircularMenuOverlay\<close> (overlay.py, lines 10-27): the fields the hit test reads,
  and the position of the widget, which has the fixed size 200 x 200. \<open>screen_width\<close>
  and \<open>screen_height\<close> of the primary screen come from Qt.
\<close>

record CircularMenuOverlay =
  radius :: real
  expanded :: bool
  actions :: "string list"
  hover_action :: "string option"
  pos_x :: int
  pos_y :: int

definition CircularMenuOverlay_init :: "int \<Rightarrow> int \<Rightarrow> CircularMenuOverlay" where
  "CircularMenuOverlay_init primary_w primary_h =
     \<lparr>radius = 28, expanded = False,
      actions = [''pause'', ''resume'', ''recalibrate'', ''exit''],
      hover_action = None,
      pos_x = primary_w - 200 - 20, pos_y = (primary_h - 200) div 2\<rparr>"

definition screen_center :: "CircularMenuOverlay \<Rightarrow> point" where
  "screen_center ov = (real_of_int (pos_x ov) + 200 / 2, real_of_int (pos_y ov) + 200 / 2)"

text \<open>
  What the program takes from its libraries: \<open>np.linalg.lstsq\<close> on an n x 3 and an
  n x 2 matrix, giving a 3 x 2 matrix, and Qt's \<open>qCos\<close> and \<open>qSin\<close>.
\<close>

record Libs =
  lstsq :: "(real \<times> real \<times> real) list \<Rightarrow> (real \<times> real) list \<Rightarrow> mat32"
  qCos :: "real \<Rightarrow> real"
  qSin :: "real \<Rightarrow> real"

text \<open>
  \<open>action_at\<close> (overlay.py, lines 33-46); \<open>action_loop\<close> is its \<open>for\<close> loop over
  \<open>enumerate(self.actions)\<close>, from index \<open>i\<close> on.
\<close>

fun action_loop ::
  "Libs \<Rightarrow> point \<Rightarrow> real \<Rightarrow> real \<Rightarrow> point \<Rightarrow> nat \<Rightarrow> string list \<Rightarrow> string option" where
  "action_loop L cxy ring_radius angle_step sxy i [] = None"
| "action_loop L cxy ring_radius angle_step sxy i (action # as) =
     (let angle_deg = real i * angle_step - 90;
          radians = angle_deg * 3.14159 / 180;
          x = fst cxy + ring_radius * qCos L radians;
          y = snd cxy + ring_radius * qSin L radians
      in if (fst sxy - x)\<^sup>2 + (snd sxy - y)\<^sup>2 \<le> 20\<^sup>2 then Some action
         else action_loop L cxy ring_radius angle_step sxy (Suc i) as)"

definition action_at :: "Libs \<Rightarrow> CircularMenuOverlay \<Rightarrow> real \<Rightarrow> real \<Rightarrow> string option" where
  "action_at L ov screen_x screen_y =
     (if \<not> expanded ov then None
      else
        let cxy = screen_center ov;
            ring_radius = radius ov + 36;
            angle_step = 360 / real (max 1 (length (actions ov)))
        in action_loop L cxy ring_radius angle_step (screen_x, screen_y) 0 (actions ov))"

definition is_in_base_circle :: "CircularMenuOverlay \<Rightarrow> real \<Rightarrow> real \<Rightarrow> bool" where
  "is_in_base_circle ov screen_x screen_y =
     (let cxy = screen_center ov
      in (screen_x - fst cxy)\<^sup>2 + (screen_y - snd cxy)\<^sup>2 \<le> (radius ov)\<^sup>2)"

definition toggle_expand :: "CircularMenuOverlay \<Rightarrow> bool option \<Rightarrow> CircularMenuOverlay" where
  "toggle_expand ov expand =
     (case expand of
        None \<Rightarrow> ov\<lparr>expanded := \<not> expanded ov\<rparr>
      | Some b \<Rightarrow> ov\<lparr>expanded := b\<rparr>)"

definition set_hover_action :: "CircularMenuOverlay \<Rightarrow> string option \<Rightarrow> CircularMenuOverlay" where
  "set_hover_action ov action_name =
     (if hover_action ov \<noteq> action_name then ov\<lparr>hover_action := action_name\<rparr> else ov)"

section \<open>Calibration\<close>

text \<open>
  One \<open>cap.read()\<close> with what the program observes while it handles the frame: the flag
  \<open>ok\<close>, the frame's width and height, the landmarks of the first face that
  \<open>face_mesh.process\<close> found (if any), the values of the first and of the second call
  of \<open>time.time()\<close> after the read, and the key \<open>cv2.waitKey(1)\<close> returns.
  A capture is the list of the reads it has delivered so far; a loop that asks for a
  further read is blocked, which is the result \<^term>\<open>None\<close>.
\<close>

record Frame =
  ok :: bool
  frame_w :: nat
  frame_h :: nat
  face :: "landmarks option"
  time1 :: real
  time2 :: real
  wait_key :: int

text \<open>
  \<open>_save_calibration\<close> (main.py, lines 177-182): the matrix goes to the configuration,
  the configuration is written to \<open>config.json\<close>, then the controller takes the matrix.
\<close>

definition save_calibration ::
  "EyeTrackerController \<Rightarrow> mat23 \<Rightarrow> EyeTrackerController \<times> effect list" where
  "save_calibration c matrix = (c\<lparr>calibration_matrix := Some matrix\<rparr>, [json_dump (Some matrix)])"

definition points :: "(real \<times> real) list" where
  "points = [(0.5, 0.5), (0.1, 0.1), (0.9, 0.1), (0.1, 0.9), (0.9, 0.9)]"

text \<open>
  The \<open>while True\<close> loop of \<open>run_calibration\<close> for one target (main.py, lines 196-233),
  with the loop's variable \<open>dwell_start\<close>. The result is \<open>Some (None, rest)\<close> when a
  read failed (the function returns), and \<open>Some (Some (sample, target), rest)\<close> when the
  loop was left by \<open>break\<close>.
\<close>

fun capture_point ::
  "EyeTrackerController \<Rightarrow> real \<times> real \<Rightarrow> real option \<Rightarrow> Frame list \<Rightarrow>
   (((real \<times> real \<times> real) \<times> (real \<times> real)) option \<times> Frame list) option" where
  "capture_point c nxy dwell_start [] = None"
| "capture_point c nxy dwell_start (f # fs) =
     (if \<not> ok f then Some (None, fs)
      else
        let cx = \<lfloor>fst nxy * real (frame_w f)\<rfloor>;
            cy = \<lfloor>snd nxy * real (frame_h f)\<rfloor>
        in case face f of
             None \<Rightarrow> capture_point c nxy dwell_start fs
           | Some lm \<Rightarrow>
               let iris_xy = compute_iris_center lm (frame_w f) (frame_h f);
                   dx = \<bar>fst iris_xy - real_of_int cx\<bar>;
                   dy = \<bar>snd iris_xy - real_of_int cy\<bar>
               in if dx \<le> 40 \<and> dy \<le> 40
                  then (case dwell_start of
                          None \<Rightarrow> capture_point c nxy (Some (time1 f)) fs
                        | Some d \<Rightarrow>
                            if time1 f - d \<ge> 0.6
                            then Some (Some ((fst iris_xy, snd iris_xy, 1),
                                             (fst nxy * screen_w c, snd nxy * screen_h c)), fs)
                            else capture_point c nxy dwell_start fs)
                  else capture_point c nxy None fs)"

text \<open>
  The \<open>for\<close> loop over the targets (main.py, lines 195-233) with the lists \<open>samples\<close>
  and \<open>targets\<close>. The flag of the result tells whether the loop ran to its end
  (\<^term>\<open>True\<close>) or the function returned from inside it.
\<close>

fun collect ::
  "EyeTrackerController \<Rightarrow> (real \<times> real) list \<Rightarrow> (real \<times> real \<times> real) list \<Rightarrow>
   (real \<times> real) list \<Rightarrow> Frame list \<Rightarrow>
   ((bool \<times> (real \<times> real \<times> real) list \<times> (real \<times> real) list) \<times> Frame list) option" where
  "collect c [] samples targets fs = Some ((True, samples, targets), fs)"
| "collect c (nxy # rest) samples targets fs =
     (case capture_point c nxy None fs of
        None \<Rightarrow> None
      | Some (None, fs') \<Rightarrow> Some ((False, samples, targets), fs')
      | Some (Some (s, t), fs') \<Rightarrow> collect c rest (samples @ [s]) (targets @ [t]) fs')"

definition transpose32 :: "mat32 \<Rightarrow> mat23" where
  "transpose32 X = (case X of ((a, b), (c, d), (e, f)) \<Rightarrow> ((a, c, e), (b, d, f)))"

text \<open>
  The end of \<open>run_calibration\<close> (main.py, lines 237-241), on the collected lists.
\<close>

definition fit :: 
  "Libs \<Rightarrow> EyeTrackerController \<Rightarrow> (real \<times> real \<times> real) list \<Rightarrow> (real \<times> real) list \<Rightarrow>
   EyeTrackerController \<times> effect list" where
  "fit L c A B =
     (if length A \<ge> 3 then save_calibration c (transpose32 (lstsq L A B)) else (c, []))"

text \<open>
  \<open>run_calibration\<close> (main.py, lines 184-241). The function has no \<open>raise\<close> and its
  value is always Python's \<open>None\<close>; the model returns the controller, the effects and
  the reads left.
\<close>

definition run_calibration ::
  "Libs \<Rightarrow> EyeTrackerController \<Rightarrow> Frame list \<Rightarrow>
   (EyeTrackerController \<times> effect list \<times> Frame list) option" where
  "run_calibration L c fs =
     (case collect c points [] [] fs of
        None \<Rightarrow> None
      | Some ((finished, A, B), fs') \<Rightarrow>
          if \<not> finished then Some (c, [], fs')
          else let (c', effs) = fit L c A B in Some (c', effs, fs'))"

section \<open>Examples and specification-side definitions\<close>

text \<open>
  The configuration of the examples: a 1000 x 800 screen, a dwell threshold of 500 ms, a
  cooldown of 1000 ms, bands of 50 px, smoothing with alpha 0.5 and an outlier threshold
  of 50 px, no calibration matrix.
\<close>

definition example_controller :: EyeTrackerController where
  "example_controller =
     \<lparr>screen_w = 1000, screen_h = 800, threshold_ms = 500, cooldown_ms = 1000,
      top_px = 50, bottom_px = 50, right_px = 50,
      scroll = \<lparr>amount = 120, interval_ms = 100\<rparr>,
      smoother = GazeSmoother_init (1/2) 50,
      dwell = DwellState_init, enabled = True, menu_dwell = DwellState_init,
      show_preview = False, calibration_on = False, calibration_matrix = None\<rparr>"

text \<open>
  A sustained target: the same zone is fed to \<open>_process_dwell\<close> at each of the given
  times, one call after the other. The result lists the times of the calls that made
  the scroll controller act.
\<close>

fun sustained_dwell :: "EyeTrackerController \<Rightarrow> string \<Rightarrow> real list \<Rightarrow> real list" where
  "sustained_dwell c z [] = []"
| "sustained_dwell c z (now # ts) =
     (let (c', effs) = process_dwell c (Some z) now
      in if effs = [] then sustained_dwell c' z ts else now # sustained_dwell c' z ts)"

text \<open>
  The same for the menu: the same action is fed to \<open>_process_menu_dwell\<close> at each of the
  given times; the result lists the values the calls returned.
\<close>

fun sustained_menu :: "EyeTrackerController \<Rightarrow> string \<Rightarrow> real list \<Rightarrow> bool list" where
  "sustained_menu c a [] = []"
| "sustained_menu c a (now # ts) =
     (let (fired, c') = process_menu_dwell c (Some a) now
      in fired # sustained_menu c' a ts)"

text \<open>The zone names \<open>_zone_for_point\<close> returns.\<close>

definition zone_names :: "string set" where
  "zone_names = {''scroll_up'', ''scroll_down'', ''scroll_right''}"

text \<open>A scroll dwell in progress: \<open>scroll_up\<close> has been the active zone since time 100.\<close>

definition dwelling_controller :: EyeTrackerController where
  "dwelling_controller =
     example_controller\<lparr>dwell := \<lparr>active_zone = Some ''scroll_up'', start_ts = 100,
                                  last_fire_ts = 0\<rparr>\<rparr>"

text \<open>A menu dwell in progress: \<open>pause\<close> has been the hovered action since time 100.\<close>

definition menu_dwelling_controller :: EyeTrackerController where
  "menu_dwelling_controller =
     example_controller\<lparr>menu_dwell := \<lparr>active_zone = Some ''pause'', start_ts = 100,
                                       last_fire_ts = 0\<rparr>\<rparr>"

text \<open>
  Library functions for the examples: a least-squares routine that returns the scaling
  from a 640 x 480 frame to the 1000 x 800 screen, and the cosine and sine of the four
  angles of the menu, rounded to integers.
\<close>

definition example_libs :: Libs where
  "example_libs =
     \<lparr>lstsq = (\<lambda>A B. ((25/16, 0), (0, 5/3), (0, 0))),
      qCos = (\<lambda>r. if r = 0 then 1 else if r = 3.14159 then -1 else 0),
      qSin = (\<lambda>r. if r = -1.570795 then -1 else if r = 1.570795 then 1 else 0)\<rparr>"

text \<open>
  A successful read of a 640 x 480 frame with a face whose iris landmarks all lie at the
  normalised position \<open>(nx, ny)\<close>, with the clock at \<open>t\<close> and no key pressed; and a
  successful read without a face.
\<close>

definition gaze_frame :: "real \<Rightarrow> real \<Rightarrow> real \<Rightarrow> Frame" where
  "gaze_frame nx ny t =
     \<lparr>ok = True, frame_w = 640, frame_h = 480, face = Some (\<lambda>i. (nx, ny)),
      time1 = t, time2 = t, wait_key = -1\<rparr>"

definition blank_frame :: "real \<Rightarrow> Frame" where
  "blank_frame t =
     \<lparr>ok = True, frame_w = 640, frame_h = 480, face = None,
      time1 = t, time2 = t, wait_key = -1\<rparr>"

text \<open>
  The order of the spec's frame cycle, step 3, written after the spec's words and not
  after the source: "smooth it, map it through the calibration model, clamp to screen
  bounds", on the raw point and a smoother (the clamp is to the closed screen rectangle);
  \<open>spec_points\<close> applies it to a sequence of raw points. It is compared with what the
  loop computes.
\<close>

definition spec_smooth_map_clamp ::
  "EyeTrackerController \<Rightarrow> GazeSmoother \<Rightarrow> point \<Rightarrow> nat \<Rightarrow> nat \<Rightarrow> error + point \<times> GazeSmoother" where
  "spec_smooth_map_clamp c s raw fw fh =
     (let (p, s') = update s raw
      in case map_to_screen c p fw fh of
           Inl e \<Rightarrow> Inl e
         | Inr m \<Rightarrow> Inr ((clip (fst m) 0 (screen_w c), clip (snd m) 0 (screen_h c)), s'))"

fun spec_points ::
  "EyeTrackerController \<Rightarrow> GazeSmoother \<Rightarrow> point list \<Rightarrow> nat \<Rightarrow> nat \<Rightarrow> point list" where
  "spec_points c s [] fw fh = []"
| "spec_points c s (raw # raws) fw fh =
     (case spec_smooth_map_clamp c s raw fw fh of
        Inl e \<Rightarrow> []
      | Inr (p, s') \<Rightarrow> p # spec_points c s' raws fw fh)"

text \<open>A point inside the closed screen rectangle \<open>[0, screen_w] x [0, screen_h]\<close>.\<close>

definition on_screen :: "EyeTrackerController \<Rightarrow> point \<Rightarrow> bool" where
  "on_screen c p = (0 \<le> fst p \<and> fst p \<le> screen_w c \<and> 0 \<le> snd p \<and> snd p \<le> screen_h c)"

text \<open>A read that fails (\<open>ok\<close> is false).\<close>

definition failed_read :: Frame where
  "failed_read =
     \<lparr>ok = False, frame_w = 0, frame_h = 0, face = None, time1 = 0, time2 = 0, wait_key = -1\<rparr>"

text \<open>
  A calibration sweep that succeeds: for each of the five targets two reads, one second
  apart, with the iris exactly on the dot.
\<close>

definition sweep_frames :: "Frame list" where
  "sweep_frames = concat (map (\<lambda>(nx, ny). [gaze_frame nx ny 0, gaze_frame nx ny 1]) points)"

text \<open>
  What \<open>np.linalg.lstsq\<close> promises for a two-column right-hand side: each column of the
  3 x 2 result minimises the sum of the squared residuals of its channel. \<open>sq_residual A b k\<close>
  is that sum for the design matrix \<open>A\<close>, the channel \<open>b\<close> and the coefficients \<open>k\<close>; the
  columns of the result \<open>((a, b), (c, d), (e, f))\<close> are \<open>(a, c, e)\<close> and \<open>(b, d, f)\<close>.
\<close>

definition sq_residual :: "(real \<times> real \<times> real) list \<Rightarrow> real list \<Rightarrow> real \<times> real \<times> real \<Rightarrow> real" where
  "sq_residual A b k =
     sum_list (map (\<lambda>(s, t). (fst s * fst k + fst (snd s) * fst (snd k)
                               + snd (snd s) * snd (snd k) - t)\<^sup>2) (zip A b))"

definition least_squares :: "(real \<times> real \<times> real) list \<Rightarrow> (real \<times> real) list \<Rightarrow> mat32 \<Rightarrow> bool" where
  "least_squares A B X =
     (case X of ((a, b), (c, d), (e, f)) \<Rightarrow>
        (\<forall>k. sq_residual A (map fst B) (a, c, e) \<le> sq_residual A (map fst B) k)
        \<and> (\<forall>k. sq_residual A (map snd B) (b, d, f) \<le> sq_residual A (map snd B) k))"

text \<open>
  Three reads that bring the gaze to the menu: onto the centre of the overlay, then in
  two steps up to the \<open>pause\<close> disc.
\<close>

definition menu_frames :: "Frame list" where
  "menu_frames = [gaze_frame (88/100) (1/2) 0, gaze_frame (88/100) (44/100) 1,
                  gaze_frame (88/100) (415/1000) 2]"

text \<open>
  A successful read of a 1000 x 800 frame whose iris centre is at the pixel \<open>(u, v)\<close>.
\<close>

definition iris_frame :: "real \<Rightarrow> real \<Rightarrow> real \<Rightarrow> Frame" where
  "iris_frame u v t =
     \<lparr>ok = True, frame_w = 1000, frame_h = 800, face = Some (\<lambda>i. (u / 1000, v / 800)),
      time1 = t, time2 = t, wait_key = -1\<rparr>"

text \<open>
  A calibration sweep in which the iris is off the dot: its position \<open>(u, v)\<close> and the
  target \<open>(X, Y)\<close> satisfy \<open>X = u + v / 10 - 39\<close> and \<open>Y = v + 10\<close>, within 40 px of each
  dot. The least-squares routine of \<open>shear_libs\<close> returns the 3 x 2 matrix of these
  coefficients.
\<close>

definition shear_sweep_frames :: "Frame list" where
  "shear_sweep_frames =
     [iris_frame 500 390 0, iris_frame 500 390 1, iris_frame 132 70 2, iris_frame 132 70 3,
      iris_frame 932 70 4, iris_frame 932 70 5, iris_frame 68 710 6, iris_frame 68 710 7,
      iris_frame 868 710 8, iris_frame 868 710 9]"

definition shear_libs :: Libs where
  "shear_libs = example_libs\<lparr>lstsq := (\<lambda>A B. ((1, 0), (1/10, 1), (-39, 10)))\<rparr>"

text \<open>
  What the scroll-dwell step of a pass reads from the controller to classify the point and
  to update the dwell state.
\<close>

definition scroll_inputs ::
  "EyeTrackerController \<Rightarrow> DwellState \<times> real \<times> real \<times> real \<times> real \<times> real \<times> real \<times> real" where
  "scroll_inputs c =
     (dwell c, threshold_ms c, cooldown_ms c, top_px c, bottom_px c, right_px c,
      screen_w c, screen_h c)"

text \<open>A controller whose smoother holds the point (100, 40).\<close>

definition smoothing_controller :: EyeTrackerController where
  "smoothing_controller =
     example_controller\<lparr>smoother := \<lparr>alpha = 1/2, outlier_px = 50, last_pt = Some (100, 40)\<rparr>\<rparr>"

section \<open>The run loop\<close>

text \<open>
  One pass through the body of the \<open>while True\<close> loop of \<open>run\<close> (main.py, lines
  258-300) gives the controller and the overlay after it, the reads left, the effects,
  and whether the loop goes on (\<open>continue\<close> is \<^term>\<open>False\<close> after a \<open>break\<close>).
  The last three fields record the pass's local variables: \<open>screen_xy\<close> (absent when no
  face was found), \<open>action\<close>, and the value \<open>_process_menu_dwell\<close> returned.
\<close>

record Tick =
  ctrl :: EyeTrackerController
  ovl :: CircularMenuOverlay
  rest :: "Frame list"
  effects :: "effect list"
  continue :: bool
  screen_xy :: "point option"
  action :: "string option"
  menu_fired :: bool

text \<open>
  The preview block (main.py, lines 292-299). With a face it computes the dot's
  position; numpy divides by a screen dimension of 0 without raising, and \<open>int\<close> of the
  infinite quotient raises. The result tells whether Esc was pressed.
\<close>

definition preview :: "EyeTrackerController \<Rightarrow> Frame \<Rightarrow> bool \<Rightarrow> error + bool" where
  "preview c f has_face =
     (if show_preview c
      then if has_face \<and> (screen_w c = 0 \<or> screen_h c = 0) then Inl OverflowError
           else Inr (wait_key f AND 0xFF = 27)
      else Inr False)"

text \<open>
  The rest of a pass after the menu block (main.py, lines 288-300): the scroll dwell
  when the controller is enabled, then the preview.
\<close>

definition finish_tick ::
  "EyeTrackerController \<Rightarrow> CircularMenuOverlay \<Rightarrow> Frame \<Rightarrow> Frame list \<Rightarrow> effect list \<Rightarrow>
   point \<Rightarrow> string option \<Rightarrow> bool \<Rightarrow> error + Tick" where
  "finish_tick c ov f fs effs xy act fired =
     (let (c', effs') =
            (if enabled c then process_dwell c (zone_for_point c (fst xy) (snd xy)) (time2 f)
             else (c, []))
      in case preview c' f True of
           Inl e \<Rightarrow> Inl e
         | Inr esc \<Rightarrow>
             Inr \<lparr>ctrl = c', ovl = ov, rest = fs, effects = effs @ effs', continue = \<not> esc,
                  screen_xy = Some xy, action = act, menu_fired = fired\<rparr>)"

text \<open>
  The dispatch on a fired menu action (main.py, lines 278-286), followed by the rest of
  the pass; \<open>exit\<close> leaves the loop at once.
\<close>

definition menu_dispatch ::
  "Libs \<Rightarrow> EyeTrackerController \<Rightarrow> CircularMenuOverlay \<Rightarrow> Frame \<Rightarrow> Frame list \<Rightarrow>
   point \<Rightarrow> string option \<Rightarrow> bool \<Rightarrow> (error + Tick) option" where
  "menu_dispatch L c ov f fs xy act fired =
     (if fired
      then if act = Some ''pause''
           then Some (finish_tick (c\<lparr>enabled := False\<rparr>) ov f fs [] xy act fired)
           else if act = Some ''resume''
           then Some (finish_tick (c\<lparr>enabled := True\<rparr>) ov f fs [] xy act fired)
           else if act = Some ''recalibrate''
           then (case run_calibration L c fs of
                   None \<Rightarrow> None
                 | Some (c', effs, fs') \<Rightarrow> Some (finish_tick c' ov f fs' effs xy act fired))
           else if act = Some ''exit''
           then Some (Inr \<lparr>ctrl = c, ovl = ov, rest = fs, effects = [], continue = False,
                           screen_xy = Some xy, action = act, menu_fired = fired\<rparr>)
           else Some (finish_tick c ov f fs [] xy act fired)
      else Some (finish_tick c ov f fs [] xy act fired))"

text \<open>
  The body of the loop (main.py, lines 258-300): the read, the gaze point (lines 267-271),
  the overlay and the menu dwell (lines 273-278), then \<open>menu_dispatch\<close>.
\<close>

definition tick ::
  "Libs \<Rightarrow> EyeTrackerController \<Rightarrow> CircularMenuOverlay \<Rightarrow> Frame \<Rightarrow> Frame list \<Rightarrow>
   (error + Tick) option" where
  "tick L c ov f fs =
     (if \<not> ok f
      then Some (Inr \<lparr>ctrl = c, ovl = ov, rest = fs, effects = [], continue = False,
                      screen_xy = None, action = None, menu_fired = False\<rparr>)
      else
        case face f of
          None \<Rightarrow>
            (case preview c f False of
               Inl e \<Rightarrow> Some (Inl e)
             | Inr esc \<Rightarrow>
                 Some (Inr \<lparr>ctrl = c, ovl = ov, rest = fs, effects = [], continue = \<not> esc,
                            screen_xy = None, action = None, menu_fired = False\<rparr>))
        | Some lm \<Rightarrow>
            let iris_xy = compute_iris_center lm (frame_w f) (frame_h f)
            in case map_to_screen c iris_xy (frame_w f) (frame_h f) of
                 Inl e \<Rightarrow> Some (Inl e)
               | Inr mapped \<Rightarrow>
                   let (xy, sm) = update (smoother c) mapped;
                       ov1 = (if is_in_base_circle ov (fst xy) (snd xy)
                              then toggle_expand ov (Some True) else ov);
                       act = action_at L ov1 (fst xy) (snd xy);
                       ov2 = set_hover_action ov1 act;
                       (fired, c2) = process_menu_dwell (c\<lparr>smoother := sm\<rparr>) act (time1 f)
                   in menu_dispatch L c2 ov2 f fs xy act fired)"

lemma capture_point_length:
  "capture_point c nxy ds fs = Some (r, fs') \<Longrightarrow> length fs' \<le> length fs"
proof (induction fs arbitrary: ds)
  case Nil
  then show ?case by simp
next
  case (Cons f fs)
  show ?case
  proof (cases "ok f")
    case False
    with Cons.prems show ?thesis by simp
  next
    case True
    with Cons.prems obtain ds' where "capture_point c nxy ds' fs = Some (r, fs') \<or> fs' = fs"
      by (auto simp: Let_def split: option.splits if_splits)
    with Cons.IH show ?thesis by fastforce
  qed
qed

lemma collect_length:
  "collect c ps A B fs = Some (r, fs') \<Longrightarrow> length fs' \<le> length fs"
proof (induction ps arbitrary: A B fs)
  case Nil
  then show ?case by simp
next
  case (Cons p ps)
  then show ?case
    by (fastforce split: option.splits prod.splits dest: capture_point_length)
qed

lemma run_calibration_length:
  assumes "run_calibration L c fs = Some (c', effs, fs')"
  shows "length fs' \<le> length fs"
proof (cases "collect c points [] [] fs")
  case None
  with assms show ?thesis by (simp add: run_calibration_def)
next
  case (Some res)
  obtain fin A B fs1 where res: "res = ((fin, A, B), fs1)" by (cases res) auto
  from assms Some res have "fs' = fs1"
    by (auto simp: run_calibration_def split: if_splits prod.splits)
  with Some res show ?thesis using collect_length by blast
qed

lemma finish_tick_rest: "finish_tick c ov f fs effs xy act fired = Inr r \<Longrightarrow> rest r = fs"
  by (auto simp: finish_tick_def split: prod.splits sum.splits)

lemma menu_dispatch_length:
  assumes "menu_dispatch L c ov f fs xy act fired = Some (Inr r)"
  shows "length (rest r) \<le> length fs"
proof (cases "fired \<and> act = Some ''recalibrate''")
  case True
  with assms obtain c' effs fs' where rc: "run_calibration L c fs = Some (c', effs, fs')"
    and ft: "finish_tick c' ov f fs' effs xy act fired = Inr r"
    by (auto simp: menu_dispatch_def split: option.splits)
  from ft have "rest r = fs'" by (rule finish_tick_rest)
  with rc show ?thesis using run_calibration_length by blast
next
  case False
  with assms have "rest r = fs"
    by (auto simp: menu_dispatch_def split: if_splits dest: finish_tick_rest)
  then show ?thesis by simp
qed

lemma tick_length:
  assumes "tick L c ov f fs = Some (Inr r)"
  shows "length (rest r) \<le> length fs"
proof (cases "ok f")
  case False
  with assms show ?thesis by (auto simp: tick_def)
next
  case True
  note okf = this
  show ?thesis
  proof (cases "face f")
    case None
    with assms okf show ?thesis by (auto simp: tick_def split: sum.splits)
  next
    case (Some lm)
    with assms okf obtain c2 ov2 xy act fired
      where "menu_dispatch L c2 ov2 f fs xy act fired = Some (Inr r)"
      by (auto simp: tick_def Let_def split: sum.splits prod.splits)
    then show ?thesis by (rule menu_dispatch_length)
  qed
qed

text \<open>
  The \<open>while True\<close> loop (main.py, lines 257-300) on the reads delivered: the passes that
  were completed, and how the loop ended: \<^term>\<open>None\<close> when it is blocked on a further
  read, an error when a pass raised, \<open>Inr ()\<close> when it was left by \<open>break\<close>.
\<close>

function run_loop ::
  "Libs \<Rightarrow> EyeTrackerController \<Rightarrow> CircularMenuOverlay \<Rightarrow> Frame list \<Rightarrow>
   Tick list \<times> (error + unit) option" where
  "run_loop L c ov [] = ([], None)"
| "run_loop L c ov (f # fs) =
     (case tick L c ov f fs of
        None \<Rightarrow> ([], None)
      | Some (Inl e) \<Rightarrow> ([], Some (Inl e))
      | Some (Inr r) \<Rightarrow>
          if continue r
          then (let (tr, res) = run_loop L (ctrl r) (ovl r) (rest r) in (r # tr, res))
          else ([r], Some (Inr ())))"
  by pat_completeness auto
termination
  by (relation "measure (\<lambda>(L, c, ov, fs). length fs)") (auto dest: tick_length)

text \<open>
  \<open>run\<close> (main.py, lines 243-304): \<open>opened\<close> is \<open>cap.isOpened()\<close>, and the primary
  screen's size places the overlay. The result adds the effects of the start-up
  calibration to what the loop gives.
\<close>

definition run ::
  "Libs \<Rightarrow> EyeTrackerController \<Rightarrow> bool \<Rightarrow> int \<Rightarrow> int \<Rightarrow> Frame list \<Rightarrow>
   effect list \<times> Tick list \<times> (error + unit) option" where
  "run L c opened primary_w primary_h fs =
     (if \<not> opened then ([], [], Some (Inl (RuntimeError ''Camera not accessible'')))
      else
        case (if calibration_on c \<and> calibration_matrix c = None
              then run_calibration L c fs else Some (c, [], fs)) of
          None \<Rightarrow> ([], [], None)
        | Some (c', effs, fs') \<Rightarrow>
            (effs, run_loop L c' (CircularMenuOverlay_init primary_w primary_h) fs'))"

section \<open>Helper lemmas\<close>

lemma norm2_gt_iff:
  assumes "0 \<le> t"
  shows "(t < norm2 v) = (t\<^sup>2 < (fst v)\<^sup>2 + (snd v)\<^sup>2)"
proof -
  have "t = sqrt (t\<^sup>2)" using assms by simp
  then have "(t < norm2 v) = (sqrt (t\<^sup>2) < sqrt ((fst v)\<^sup>2 + (snd v)\<^sup>2))"
    by (simp add: norm2_def)
  then show ?thesis by (simp only: real_sqrt_less_iff)
qed

lemma norm2_gt_code: "(t < norm2 v) = (t < 0 \<or> t\<^sup>2 < (fst v)\<^sup>2 + (snd v)\<^sup>2)"
proof (cases "t < 0")
  case True
  have "0 \<le> norm2 v" by (simp add: norm2_def)
  with True show ?thesis by simp
next
  case False
  then show ?thesis using norm2_gt_iff [of t v] by simp
qed

lemma update_code [code]:
  "update s p =
     (case last_pt s of
        None \<Rightarrow> (p, s\<lparr>last_pt := Some p\<rparr>)
      | Some l \<Rightarrow>
          if outlier_px s < 0 \<or> (outlier_px s)\<^sup>2 < (fst p - fst l)\<^sup>2 + (snd p - snd l)\<^sup>2
          then (l, s)
          else
            let smoothed = (alpha s * fst p + (1 - alpha s) * fst l,
                            alpha s * snd p + (1 - alpha s) * snd l)
            in (smoothed, s\<lparr>last_pt := Some smoothed\<rparr>))"
  by (simp add: update_def norm2_gt_code Let_def split: option.splits)

lemma scroll_effects_nonempty:
  "scroll_up sc \<noteq> [] \<and> scroll_down sc \<noteq> [] \<and> scroll_right sc \<noteq> []"
  by (simp add: scroll_up_def scroll_down_def scroll_right_def scroll_delta_def)

lemma process_dwell_same:
  assumes "active_zone (dwell c) = Some z"
  shows "process_dwell c (Some z) now =
     (if now - last_fire_ts (dwell c) < cooldown_ms c / 1000 then (c, [])
      else if now - start_ts (dwell c) \<ge> threshold_ms c / 1000
      then (c\<lparr>dwell := (dwell c)\<lparr>last_fire_ts := now\<rparr>\<rparr>,
            if z = ''scroll_up'' then scroll_up (scroll c)
            else if z = ''scroll_down'' then scroll_down (scroll c)
            else if z = ''scroll_right'' then scroll_right (scroll c)
            else [])
      else (c, []))"
  using assms by (simp add: process_dwell_def Let_def)


lemma zone_effects_nonempty:
  assumes "z \<in> zone_names"
  shows "(if z = ''scroll_up'' then scroll_up sc
          else if z = ''scroll_down'' then scroll_down sc
          else if z = ''scroll_right'' then scroll_right sc
          else []) \<noteq> []"
proof -
  from assms have "z = ''scroll_up'' \<or> z = ''scroll_down'' \<or> z = ''scroll_right''"
    by (simp add: zone_names_def)
  then show ?thesis using scroll_effects_nonempty [of sc] by presburger
qed

lemma sustained_dwell_quiet:
  assumes "process_dwell c (Some z) now = (c, [])"
  shows "sustained_dwell c z (now # ts) = sustained_dwell c z ts"
  using assms by simp

lemma sustained_dwell_fire:
  assumes "process_dwell c (Some z) now = (c', effs)" and "effs \<noteq> []"
  shows "sustained_dwell c z (now # ts) = now # sustained_dwell c' z ts"
  using assms by simp

lemma sustained_dwell_fires:
  assumes "active_zone (dwell c) = Some z" and "z \<in> zone_names"
  shows "(\<forall>t \<in> set (sustained_dwell c z ts). t - start_ts (dwell c) \<ge> threshold_ms c / 1000)
       \<and> successively (\<lambda>a b. b - a \<ge> cooldown_ms c / 1000)
            (last_fire_ts (dwell c) # sustained_dwell c z ts)"
  using assms
proof (induction ts arbitrary: c)
  case Nil
  then show ?case by simp
next
  case (Cons now ts)
  note act = Cons.prems(1)
  show ?case
  proof (cases "now - last_fire_ts (dwell c) < cooldown_ms c / 1000
                \<or> \<not> now - start_ts (dwell c) \<ge> threshold_ms c / 1000")
    case True
    then have "process_dwell c (Some z) now = (c, [])"
      by (auto simp only: process_dwell_same [OF act] if_True if_False if_cancel)
    then have "sustained_dwell c z (now # ts) = sustained_dwell c z ts"
      by (rule sustained_dwell_quiet)
    then show ?thesis using Cons.IH [OF Cons.prems] by simp
  next
    case False
    let ?c' = "c\<lparr>dwell := (dwell c)\<lparr>last_fire_ts := now\<rparr>\<rparr>"
    from False have cool: "\<not> now - last_fire_ts (dwell c) < cooldown_ms c / 1000"
      and thr: "now - start_ts (dwell c) \<ge> threshold_ms c / 1000" by auto
    let ?effs = "if z = ''scroll_up'' then scroll_up (scroll c)
            else if z = ''scroll_down'' then scroll_down (scroll c)
            else if z = ''scroll_right'' then scroll_right (scroll c)
            else []"
    have step: "process_dwell c (Some z) now = (?c', ?effs)"
      using cool thr by (simp only: process_dwell_same [OF act] if_True if_False)
    have ne: "?effs \<noteq> []"
      using Cons.prems(2) by (rule zone_effects_nonempty)
    have eq: "sustained_dwell c z (now # ts) = now # sustained_dwell ?c' z ts"
      using step ne by (rule sustained_dwell_fire)
    have "active_zone (dwell ?c') = Some z" using act by simp
    from Cons.IH [OF this Cons.prems(2)]
    have ih: "(\<forall>t \<in> set (sustained_dwell ?c' z ts). t - start_ts (dwell c) \<ge> threshold_ms c / 1000)
       \<and> successively (\<lambda>a b. b - a \<ge> cooldown_ms c / 1000) (now # sustained_dwell ?c' z ts)"
      by simp
    show ?thesis using ih thr cool unfolding eq by (simp add: successively_Cons)
  qed
qed

lemma sustained_menu_no_double:
  "successively (\<lambda>x y. \<not> (x \<and> y)) (sustained_menu c a ts)
   \<and> (active_zone (menu_dwell c) = None \<longrightarrow>
        sustained_menu c a ts = [] \<or> \<not> hd (sustained_menu c a ts))"
proof (induction ts arbitrary: c)
  case Nil
  show ?case by simp
next
  case (Cons now ts)
  let ?fired = "fst (process_menu_dwell c (Some a) now)"
  let ?c' = "snd (process_menu_dwell c (Some a) now)"
  have eq: "sustained_menu c a (now # ts) = ?fired # sustained_menu ?c' a ts"
    by (simp add: case_prod_beta)
  have fired_none: "?fired \<Longrightarrow> active_zone (menu_dwell ?c') = None"
    by (simp add: process_menu_dwell_def Let_def split: if_splits)
  have none_quiet: "active_zone (menu_dwell c) = None \<Longrightarrow> \<not> ?fired"
    by (simp add: process_menu_dwell_def Let_def)
  from Cons.IH [of ?c']
  have ih1: "successively (\<lambda>x y. \<not> (x \<and> y)) (sustained_menu ?c' a ts)"
    and ih2: "active_zone (menu_dwell ?c') = None \<Longrightarrow>
        sustained_menu ?c' a ts = [] \<or> \<not> hd (sustained_menu ?c' a ts)"
    by blast+
  have "successively (\<lambda>x y. \<not> (x \<and> y)) (?fired # sustained_menu ?c' a ts)"
  proof (cases "sustained_menu ?c' a ts")
    case Nil
    then show ?thesis by simp
  next
    case (Cons b bs)
    with ih1 ih2 fired_none show ?thesis by (auto simp: successively_Cons)
  qed
  then show ?case using none_quiet unfolding eq by simp
qed


lemma dwelling_run:
  "sustained_dwell dwelling_controller ''scroll_up'' [1001/10, 1004/10, 1005/10, 1006/10, 1014/10, 1015/10]
     = [1005/10, 1015/10]"
  by (simp add: dwelling_controller_def example_controller_def process_dwell_def Let_def
        scroll_up_def scroll_delta_def)

lemma tick_no_face:
  assumes "face f = None"
  shows "tick L c ov f fs =
     Some (Inr \<lparr>ctrl = c, ovl = ov, rest = fs, effects = [],
                continue = (ok f \<and> \<not> (show_preview c \<and> wait_key f AND 0xFF = 27)),
                screen_xy = None, action = None, menu_fired = False\<rparr>)"
  using assms by (simp add: tick_def preview_def)

lemma process_dwell_frame:
  "smoother (fst (process_dwell c zone now)) = smoother c
   \<and> menu_dwell (fst (process_dwell c zone now)) = menu_dwell c
   \<and> calibration_matrix (fst (process_dwell c zone now)) = calibration_matrix c"
  by (simp add: process_dwell_def Let_def)

lemma process_menu_dwell_frame:
  "smoother (snd (process_menu_dwell c act now)) = smoother c
   \<and> dwell (snd (process_menu_dwell c act now)) = dwell c
   \<and> calibration_matrix (snd (process_menu_dwell c act now)) = calibration_matrix c"
  by (simp add: process_menu_dwell_def Let_def)

lemma process_menu_dwell_fired:
  "fst (process_menu_dwell c act now) \<Longrightarrow> act \<noteq> None"
  by (auto simp: process_menu_dwell_def Let_def split: if_splits)

lemma fit_frame:
  "smoother (fst (fit L c A B)) = smoother c \<and> dwell (fst (fit L c A B)) = dwell c
   \<and> menu_dwell (fst (fit L c A B)) = menu_dwell c"
  by (simp add: fit_def save_calibration_def)

lemma run_calibration_frame:
  assumes "run_calibration L c fs = Some (c', effs, fs')"
  shows "smoother c' = smoother c \<and> dwell c' = dwell c \<and> menu_dwell c' = menu_dwell c"
proof (cases "collect c points [] [] fs")
  case None
  with assms show ?thesis by (simp add: run_calibration_def)
next
  case (Some res)
  obtain fin A B fs1 where res: "res = ((fin, A, B), fs1)" by (cases res) auto
  from assms Some res have "c' = c \<or> c' = fst (fit L c A B)"
    by (auto simp: run_calibration_def split: if_splits prod.splits)
  then show ?thesis using fit_frame [of L c A B] by auto
qed

lemma finish_tick_fields:
  assumes "finish_tick c ov f fs effs xy act fired = Inr r"
  shows "screen_xy r = Some xy \<and> action r = act \<and> menu_fired r = fired \<and> ovl r = ov
         \<and> smoother (ctrl r) = smoother c \<and> menu_dwell (ctrl r) = menu_dwell c"
proof -
  let ?c' = "if enabled c then fst (process_dwell c (zone_for_point c (fst xy) (snd xy)) (time2 f))
             else c"
  from assms have "screen_xy r = Some xy \<and> action r = act \<and> menu_fired r = fired \<and> ovl r = ov
      \<and> ctrl r = ?c'"
    by (auto simp: finish_tick_def case_prod_beta split: sum.splits if_splits)
  then show ?thesis using process_dwell_frame by auto
qed

lemma menu_dispatch_fields:
  assumes "menu_dispatch L c ov f fs xy act fired = Some (Inr r)"
  shows "screen_xy r = Some xy \<and> action r = act \<and> menu_fired r = fired \<and> ovl r = ov
         \<and> smoother (ctrl r) = smoother c"
proof (cases "fired \<and> act = Some ''recalibrate''")
  case True
  with assms obtain c' effs fs' where rc: "run_calibration L c fs = Some (c', effs, fs')"
    and ft: "finish_tick c' ov f fs' effs xy act fired = Inr r"
    by (auto simp: menu_dispatch_def split: option.splits)
  from finish_tick_fields [OF ft] run_calibration_frame [OF rc] show ?thesis by simp
next
  case False
  note nr = this
  show ?thesis
  proof (cases "fired \<and> act = Some ''exit''")
    case True
    with assms show ?thesis by (auto simp: menu_dispatch_def)
  next
    case False
    with nr assms obtain c' where "finish_tick c' ov f fs [] xy act fired = Inr r"
      and "smoother c' = smoother c"
      by (auto simp: menu_dispatch_def split: if_splits)
    with finish_tick_fields show ?thesis by fastforce
  qed
qed

lemma tick_face:
  assumes "ok f" and "face f = Some lm" and "tick L c ov f fs = Some (Inr r)"
  shows "\<exists>mapped. map_to_screen c (compute_iris_center lm (frame_w f) (frame_h f))
                    (frame_w f) (frame_h f) = Inr mapped
           \<and> screen_xy r = Some (fst (update (smoother c) mapped))
           \<and> smoother (ctrl r) = snd (update (smoother c) mapped)
           \<and> action r = action_at L (if is_in_base_circle ov (fst (fst (update (smoother c) mapped)))
                                          (snd (fst (update (smoother c) mapped)))
                                      then toggle_expand ov (Some True) else ov)
                          (fst (fst (update (smoother c) mapped)))
                          (snd (fst (update (smoother c) mapped)))
           \<and> ovl r = set_hover_action
                       (if is_in_base_circle ov (fst (fst (update (smoother c) mapped)))
                                          (snd (fst (update (smoother c) mapped)))
                        then toggle_expand ov (Some True) else ov) (action r)
           \<and> menu_fired r = fst (process_menu_dwell (c\<lparr>smoother := snd (update (smoother c) mapped)\<rparr>)
                                   (action r) (time1 f))"
proof (cases "map_to_screen c (compute_iris_center lm (frame_w f) (frame_h f)) (frame_w f) (frame_h f)")
  case (Inl e)
  with assms show ?thesis by (simp add: tick_def Let_def)
next
  case (Inr mapped)
  let ?xy = "fst (update (smoother c) mapped)"
  let ?sm = "snd (update (smoother c) mapped)"
  let ?ov1 = "if is_in_base_circle ov (fst ?xy) (snd ?xy) then toggle_expand ov (Some True) else ov"
  let ?act = "action_at L ?ov1 (fst ?xy) (snd ?xy)"
  let ?pm = "process_menu_dwell (c\<lparr>smoother := ?sm\<rparr>) ?act (time1 f)"
  from assms Inr have md: "menu_dispatch L (snd ?pm) (set_hover_action ?ov1 ?act) f fs ?xy ?act (fst ?pm)
      = Some (Inr r)"
    by (simp add: tick_def Let_def case_prod_beta)
  from menu_dispatch_fields [OF md] process_menu_dwell_frame [of "c\<lparr>smoother := ?sm\<rparr>" ?act "time1 f"]
  show ?thesis using Inr by simp
qed

lemma iris_at: "compute_iris_center (\<lambda>i. (nx, ny)) w h = (nx * real w, ny * real h)"
  by (simp add: compute_iris_center_def center_def Let_def)

lemma example_fields:
  "screen_w example_controller = 1000" "screen_h example_controller = 800"
  "threshold_ms example_controller = 500" "cooldown_ms example_controller = 1000"
  "top_px example_controller = 50" "bottom_px example_controller = 50"
  "right_px example_controller = 50"
  "scroll example_controller = \<lparr>amount = 120, interval_ms = 100\<rparr>"
  "smoother example_controller = \<lparr>alpha = 1/2, outlier_px = 50, last_pt = None\<rparr>"
  "dwell example_controller = \<lparr>active_zone = None, start_ts = 0, last_fire_ts = 0\<rparr>"
  "menu_dwell example_controller = \<lparr>active_zone = None, start_ts = 0, last_fire_ts = 0\<rparr>"
  "enabled example_controller" "\<not> show_preview example_controller"
  "calibration_matrix example_controller = None"
  "\<not> calibration_on example_controller"
  by (simp_all add: example_controller_def GazeSmoother_init_def DwellState_init_def)

lemma overlay_fields:
  "screen_center (CircularMenuOverlay_init 1000 800) = (880, 400)"
  "radius (CircularMenuOverlay_init 1000 800) = 28"
  "\<not> expanded (CircularMenuOverlay_init 1000 800)"
  "hover_action (CircularMenuOverlay_init 1000 800) = None"
  by (simp_all add: CircularMenuOverlay_init_def screen_center_def)



lemmas tick_eval = tick_def gaze_frame_def iris_at map_to_screen_def clip_def update_code
  is_in_base_circle_def action_at_def process_menu_dwell_def menu_dispatch_def
  finish_tick_def zone_for_point_def process_dwell_def preview_def Let_def
  set_hover_action_def example_fields overlay_fields power2_eq_square

lemma tick1:
  "tick example_libs example_controller (CircularMenuOverlay_init 1000 800)
     (gaze_frame (1/10) (1/10) 0) fs
   = Some (Inr \<lparr>ctrl = example_controller\<lparr>smoother :=
                    \<lparr>alpha = 1/2, outlier_px = 50, last_pt = Some (100, 80)\<rparr>\<rparr>,
                ovl = CircularMenuOverlay_init 1000 800, rest = fs, effects = [],
                continue = True, screen_xy = Some (100, 80), action = None,
                menu_fired = False\<rparr>)"
  by (simp add: tick_eval)

lemma tick2:
  "tick example_libs
     (example_controller\<lparr>smoother := \<lparr>alpha = 1/2, outlier_px = 50, last_pt = Some (100, 80)\<rparr>\<rparr>)
     (CircularMenuOverlay_init 1000 800) (gaze_frame (13/80) (1/10) 1) fs
   = Some (Inr \<lparr>ctrl = example_controller\<lparr>smoother :=
                    \<lparr>alpha = 1/2, outlier_px = 50, last_pt = Some (100, 80)\<rparr>\<rparr>,
                ovl = CircularMenuOverlay_init 1000 800, rest = fs, effects = [],
                continue = True, screen_xy = Some (100, 80), action = None,
                menu_fired = False\<rparr>)"
  by (simp add: tick_eval)


lemma map_fallback_on_screen:
  assumes "calibration_matrix c = None" and "0 \<le> screen_w c" and "0 \<le> screen_h c"
    and "map_to_screen c g fw fh = Inr q"
  shows "on_screen c q"
proof -
  have b: "0 \<le> clip a 0 1 \<and> clip a 0 1 \<le> 1" for a by (simp add: clip_def)
  from assms(1,4) have q: "q = (clip (fst g / real fw) 0 1 * screen_w c,
                                clip (snd g / real fh) 0 1 * screen_h c)"
    by (auto simp: map_to_screen_def Let_def split: if_splits)
  have "clip (fst g / real fw) 0 1 * screen_w c \<le> 1 * screen_w c"
    using b assms(2) by (intro mult_right_mono) auto
  moreover have "clip (snd g / real fh) 0 1 * screen_h c \<le> 1 * screen_h c"
    using b assms(3) by (intro mult_right_mono) auto
  ultimately show ?thesis using b assms(2,3) by (simp add: q on_screen_def)
qed

lemma tick_point_has_face:
  assumes "tick L c ov f fs = Some (Inr r)" and "screen_xy r = Some p"
  shows "ok f \<and> (\<exists>lm. face f = Some lm)"
proof -
  have "face f \<noteq> None"
  proof
    assume "face f = None"
    from tick_no_face [OF this, of L c ov fs] assms show False by auto
  qed
  moreover have "ok f"
  proof (rule ccontr)
    assume "\<not> ok f"
    with assms show False by (auto simp: tick_def)
  qed
  ultimately show ?thesis by auto
qed

lemma collect_finished_length:
  "collect c ps A B fs = Some ((True, A', B'), fs') \<Longrightarrow> length A' = length A + length ps"
proof (induction ps arbitrary: A B fs)
  case Nil
  then show ?case by simp
next
  case (Cons p ps)
  from Cons.prems obtain s t fs1 where
    "collect c ps (A @ [s]) (B @ [t]) fs1 = Some ((True, A', B'), fs')"
    by (auto split: option.splits prod.splits)
  from Cons.IH [OF this] show ?case by simp
qed

lemma sweep_collect:
  "collect example_controller points [] [] (sweep_frames @ fs)
     = Some ((True, [(320, 240, 1), (64, 48, 1), (576, 48, 1), (64, 432, 1), (576, 432, 1)],
                    [(500, 400), (100, 80), (900, 80), (100, 720), (900, 720)]), fs)"
  by (simp add: sweep_frames_def points_def gaze_frame_def iris_at example_fields)


lemma sq_residual_nonneg: "0 \<le> sq_residual A b k"
  unfolding sq_residual_def by (rule sum_list_nonneg) auto

lemma action_at_collapsed: "\<not> expanded ov \<Longrightarrow> action_at L ov x y = None"
  by (simp add: action_at_def)

lemma base_circle_geometry:
  assumes "screen_center ov' = screen_center ov" and "radius ov' = radius ov"
  shows "is_in_base_circle ov' x y = is_in_base_circle ov x y"
  using assms by (simp add: is_in_base_circle_def)

lemma overlay_step_geometry:
  "screen_center (set_hover_action (if b then toggle_expand ov (Some True) else ov) act)
     = screen_center ov
   \<and> radius (set_hover_action (if b then toggle_expand ov (Some True) else ov) act) = radius ov
   \<and> expanded (set_hover_action (if b then toggle_expand ov (Some True) else ov) act)
     = (b \<or> expanded ov)"
  by (simp add: set_hover_action_def toggle_expand_def screen_center_def)

lemma tick_overlay:
  assumes "tick L c ov f fs = Some (Inr r)"
  shows "screen_center (ovl r) = screen_center ov \<and> radius (ovl r) = radius ov
       \<and> (expanded (ovl r) \<longrightarrow> expanded ov
             \<or> (\<exists>p. screen_xy r = Some p \<and> is_in_base_circle ov (fst p) (snd p)))
       \<and> (action r \<noteq> None \<or> menu_fired r \<longrightarrow> expanded ov
             \<or> (\<exists>p. screen_xy r = Some p \<and> is_in_base_circle ov (fst p) (snd p)))"
proof (cases "ok f \<and> face f \<noteq> None")
  case False
  then have "\<not> ok f \<or> face f = None" by auto
  then have "ovl r = ov \<and> action r = None \<and> \<not> menu_fired r"
  proof
    assume "\<not> ok f"
    with assms show ?thesis by (auto simp: tick_def)
  next
    assume "face f = None"
    from tick_no_face [OF this, of L c ov fs] assms show ?thesis by auto
  qed
  then show ?thesis by simp
next
  case True
  then obtain lm where f: "ok f" "face f = Some lm" by auto
  from tick_face [OF f assms] obtain mapped where
    xy: "screen_xy r = Some (fst (update (smoother c) mapped))" and
    act: "action r = action_at L (if is_in_base_circle ov (fst (fst (update (smoother c) mapped)))
                                          (snd (fst (update (smoother c) mapped)))
                                      then toggle_expand ov (Some True) else ov)
                          (fst (fst (update (smoother c) mapped)))
                          (snd (fst (update (smoother c) mapped)))" and
    ov: "ovl r = set_hover_action
                       (if is_in_base_circle ov (fst (fst (update (smoother c) mapped)))
                                          (snd (fst (update (smoother c) mapped)))
                        then toggle_expand ov (Some True) else ov) (action r)" and
    mf: "menu_fired r = fst (process_menu_dwell (c\<lparr>smoother := snd (update (smoother c) mapped)\<rparr>)
                                   (action r) (time1 f))"
    by blast
  let ?p = "fst (update (smoother c) mapped)"
  let ?b = "is_in_base_circle ov (fst ?p) (snd ?p)"
  let ?ov1 = "if ?b then toggle_expand ov (Some True) else ov"
  from ov overlay_step_geometry [of ?b ov "action r"]
  have g: "screen_center (ovl r) = screen_center ov" "radius (ovl r) = radius ov"
    "expanded (ovl r) = (?b \<or> expanded ov)" by simp_all
  have ex1: "expanded ?ov1 = (?b \<or> expanded ov)" by (simp add: toggle_expand_def)
  have a: "action r \<noteq> None \<Longrightarrow> ?b \<or> expanded ov"
    using act action_at_collapsed [of ?ov1 L "fst ?p" "snd ?p"] ex1 by metis
  have m: "menu_fired r \<Longrightarrow> action r \<noteq> None"
    using mf process_menu_dwell_fired by metis
  from g a m xy show ?thesis by auto
qed

lemma run_loop_menu:
  assumes "run_loop L c ov fs = (tr, res)" and "k < length tr"
    and "action (tr ! k) \<noteq> None \<or> menu_fired (tr ! k) \<or> expanded (ovl (tr ! k))"
  shows "expanded ov
         \<or> (\<exists>j\<le>k. \<exists>p. screen_xy (tr ! j) = Some p \<and> is_in_base_circle ov (fst p) (snd p))"
  using assms
proof (induction L c ov fs arbitrary: tr res k rule: run_loop.induct)
  case (1 L c ov)
  then show ?case by simp
next
  case (2 L c ov f fs)
  show ?case
  proof (cases "tick L c ov f fs")
    case None
    with "2.prems" show ?thesis by simp
  next
    case (Some t)
    show ?thesis
    proof (cases t)
      case (Inl e)
      with Some "2.prems" show ?thesis by simp
    next
      case (Inr r)
      with Some have tk: "tick L c ov f fs = Some (Inr r)" by simp
      note to = tick_overlay [OF tk]
      obtain tr' res' where rl: "run_loop L (ctrl r) (ovl r) (rest r) = (tr', res')"
        by (cases "run_loop L (ctrl r) (ovl r) (rest r)") auto
      from "2.prems"(1) tk rl have tr: "tr = r # (if continue r then tr' else [])"
        by (simp split: if_splits)
      show ?thesis
      proof (cases k)
        case 0
        with "2.prems"(3) tr to show ?thesis by auto
      next
        case (Suc k')
        with "2.prems"(2) tr have cont: "continue r" and k': "k' < length tr'"
          by (auto split: if_splits)
        from "2.prems"(3) Suc tr cont
        have hyp: "action (tr' ! k') \<noteq> None \<or> menu_fired (tr' ! k') \<or> expanded (ovl (tr' ! k'))"
          by simp
        from "2.IH" [OF Some Inr cont rl k' hyp]
        have "expanded (ovl r)
          \<or> (\<exists>j\<le>k'. \<exists>p. screen_xy (tr' ! j) = Some p
                \<and> is_in_base_circle (ovl r) (fst p) (snd p))" .
        then show ?thesis
        proof
          assume "expanded (ovl r)"
          with to have "expanded ov
             \<or> (\<exists>p. screen_xy (tr ! 0) = Some p \<and> is_in_base_circle ov (fst p) (snd p))"
            using tr by auto
          then show ?thesis by blast
        next
          assume "\<exists>j\<le>k'. \<exists>p. screen_xy (tr' ! j) = Some p
                \<and> is_in_base_circle (ovl r) (fst p) (snd p)"
          then obtain j p where j: "j \<le> k'" "screen_xy (tr' ! j) = Some p"
            "is_in_base_circle (ovl r) (fst p) (snd p)" by blast
          from j(3) to have "is_in_base_circle ov (fst p) (snd p)"
            using base_circle_geometry [of "ovl r" ov] by simp
          with j(1,2) tr cont Suc have "Suc j \<le> k \<and> screen_xy (tr ! Suc j) = Some p
              \<and> is_in_base_circle ov (fst p) (snd p)" by simp
          then show ?thesis by blast
        qed
      qed
    qed
  qed
qed


lemma menu_run:
  "map (\<lambda>r. (screen_xy r, action r))
       (fst (snd (run example_libs example_controller True 1000 800 menu_frames)))
     = [(Some (880, 400), None), (Some (880, 376), None), (Some (880, 354), Some ''pause'')]"
  by (simp add: run_def menu_frames_def tick_def gaze_frame_def iris_at map_to_screen_def
        clip_def update_code is_in_base_circle_def action_at_def process_menu_dwell_def
        menu_dispatch_def finish_tick_def zone_for_point_def process_dwell_def preview_def
        Let_def set_hover_action_def example_fields power2_eq_square
        CircularMenuOverlay_init_def screen_center_def toggle_expand_def example_libs_def)

lemma sq_residual_rows:
  "sq_residual A (map g A) k
     = sum_list (map (\<lambda>s. (fst s * fst k + fst (snd s) * fst (snd k)
                              + snd (snd s) * snd (snd k) - g s)\<^sup>2) A)"
  by (induction A) (simp_all add: sq_residual_def)

lemma sq_residual_zero_rows:
  assumes "sq_residual A (map g A) k = 0" and "s \<in> set A"
  shows "fst s * fst k + fst (snd s) * fst (snd k) + snd (snd s) * snd (snd k) = g s"
proof -
  let ?h = "\<lambda>s. (fst s * fst k + fst (snd s) * fst (snd k) + snd (snd s) * snd (snd k) - g s)\<^sup>2"
  from assms(1) have "sum_list (map ?h A) = 0" by (simp add: sq_residual_rows)
  moreover have "\<And>x. x \<in> set (map ?h A) \<Longrightarrow> 0 \<le> x" by auto
  ultimately have "\<forall>x \<in> set (map ?h A). x = 0"
    using sum_list_nonneg_eq_0_iff [of "map ?h A"] by blast
  with assms(2) have "?h s = 0" by auto
  then show ?thesis by simp
qed

lemma sq_residual_affine:
  "sq_residual A (map (\<lambda>s. fst (dot M0 s)) A) (fst M0) = 0
   \<and> sq_residual A (map (\<lambda>s. snd (dot M0 s)) A) (snd M0) = 0"
proof -
  obtain a b c d e f where M0: "M0 = ((a, b, c), (d, e, f))" by (metis prod_cases3)
  have "(\<lambda>s. fst (dot M0 s)) = (\<lambda>s. a * fst s + b * fst (snd s) + c * snd (snd s))"
    "(\<lambda>s. snd (dot M0 s)) = (\<lambda>s. d * fst s + e * fst (snd s) + f * snd (snd s))"
    by (auto simp: M0 dot_def fun_eq_iff split: prod.splits)
  then show ?thesis by (simp add: sq_residual_rows M0 mult.commute)
qed

lemma least_squares_exact:
  assumes "least_squares A (map (dot M0) A) X" and "s \<in> set A" and "snd (snd s) = 1"
  shows "dot (transpose32 X) (fst s, fst (snd s), 1) = dot M0 s"
proof -
  let ?gx = "\<lambda>s. fst (dot M0 s)" and ?gy = "\<lambda>s. snd (dot M0 s)"
  have bx: "map fst (map (dot M0) A) = map ?gx A" and by': "map snd (map (dot M0) A) = map ?gy A"
    by simp_all
  obtain a b c d e f where X: "X = ((a, b), (c, d), (e, f))"
    by (cases X) auto
  from assms(1) have ls: "(\<forall>k. sq_residual A (map ?gx A) (a, c, e) \<le> sq_residual A (map ?gx A) k)
      \<and> (\<forall>k. sq_residual A (map ?gy A) (b, d, f) \<le> sq_residual A (map ?gy A) k)"
    unfolding least_squares_def X bx by' prod.case .
  then have "sq_residual A (map ?gx A) (a, c, e) \<le> sq_residual A (map ?gx A) (fst M0)"
    and "sq_residual A (map ?gy A) (b, d, f) \<le> sq_residual A (map ?gy A) (snd M0)"
    by blast+
  with sq_residual_affine [of A M0] sq_residual_nonneg [of A "map ?gx A" "(a, c, e)"]
    sq_residual_nonneg [of A "map ?gy A" "(b, d, f)"]
  have rx: "sq_residual A (map ?gx A) (a, c, e) = 0"
    and ry: "sq_residual A (map ?gy A) (b, d, f) = 0" by simp_all
  obtain x y z where s: "s = (x, y, z)" by (metis prod_cases3)
  from sq_residual_zero_rows [OF rx assms(2)] sq_residual_zero_rows [OF ry assms(2)] assms(3)
  show ?thesis by (simp add: X s transpose32_def dot_def prod_eq_iff mult.commute)
qed

lemma capture_point_row:
  "capture_point c nxy ds fs = Some (Some (s, t), fs')
   \<Longrightarrow> snd (snd s) = 1 \<and> t = (fst nxy * screen_w c, snd nxy * screen_h c)"
proof (induction fs arbitrary: ds)
  case Nil
  then show ?case by simp
next
  case (Cons f fs)
  show ?case
  proof (cases "ok f")
    case False
    with Cons.prems show ?thesis by simp
  next
    case True
    with Cons.prems have
      "(\<exists>ds'. capture_point c nxy ds' fs = Some (Some (s, t), fs'))
       \<or> (snd (snd s) = 1 \<and> t = (fst nxy * screen_w c, snd nxy * screen_h c))"
      by (auto simp: Let_def split: option.splits if_splits)
    with Cons.IH show ?thesis by blast
  qed
qed

lemma collect_rows:
  assumes "collect c ps A B fs = Some ((fin, A', B'), fs')" and "\<forall>s \<in> set A. snd (snd s) = 1"
  shows "\<forall>s \<in> set A'. snd (snd s) = 1"
  using assms
proof (induction ps arbitrary: A B fs)
  case Nil
  then show ?case by simp
next
  case (Cons p ps)
  show ?case
  proof (cases "capture_point c p None fs")
    case None
    with Cons.prems show ?thesis by simp
  next
    case (Some res)
    obtain cap fs1 where res: "res = (cap, fs1)" by (cases res) auto
    show ?thesis
    proof (cases cap)
      case None
      with Some res Cons.prems show ?thesis by auto
    next
      case (Some st)
      obtain s t where st: "st = (s, t)" by (cases st) auto
      from \<open>capture_point c p None fs = Some res\<close> res Some st
      have cp: "capture_point c p None fs = Some (Some (s, t), fs1)" by simp
      with Cons.prems(1) have col: "collect c ps (A @ [s]) (B @ [t]) fs1 = Some ((fin, A', B'), fs')"
        by simp
      from capture_point_row [OF cp] Cons.prems(2)
      have "\<forall>s' \<in> set (A @ [s]). snd (snd s') = 1" by auto
      from Cons.IH [OF col this] show ?thesis .
    qed
  qed
qed


lemma iris_frame_fields:
  "ok (iris_frame u v t)" "frame_w (iris_frame u v t) = 1000" "frame_h (iris_frame u v t) = 800"
  "face (iris_frame u v t) = Some (\<lambda>i. (u / 1000, v / 800))" "time1 (iris_frame u v t) = t"
  by (simp_all add: iris_frame_def)

lemma shear_sweep_collect:
  "collect example_controller points [] [] shear_sweep_frames
     = Some ((True, [(500, 390, 1), (132, 70, 1), (932, 70, 1), (68, 710, 1), (868, 710, 1)],
                    [(500, 400), (100, 80), (900, 80), (100, 720), (900, 720)]), [])"
  by (simp add: shear_sweep_frames_def points_def iris_frame_fields iris_at example_fields)

lemma shear_targets:
  "[(500, 400), (100, 80), (900, 80), (100, 720), (900, 720)]
     = map (dot ((1, 1/10, -39), (0, 1, 10)))
         [(500, 390, 1), (132, 70, 1), (932, 70, 1), (68, 710, 1), (868, 710, 1)]"
  by (simp add: dot_def)

lemma shear_lstsq_exact:
  "least_squares A (map (dot ((1, 1/10, -39), (0, 1, 10))) A) (lstsq shear_libs A' B')"
  using sq_residual_affine [of A "((1, 1/10, -39), (0, 1, 10))"]
  by (simp add: least_squares_def shear_libs_def example_libs_def sq_residual_nonneg comp_def)


lemma scroll_inputs_dwell:
  assumes "scroll_inputs c' = scroll_inputs c"
  shows "dwell (fst (process_dwell c' z t)) = dwell (fst (process_dwell c z t))
         \<and> zone_for_point c' x y = zone_for_point c x y"
  using assms by (simp add: scroll_inputs_def process_dwell_def zone_for_point_def Let_def)

lemma scroll_inputs_menu:
  "scroll_inputs (snd (process_menu_dwell c act now)) = scroll_inputs c"
  by (simp add: scroll_inputs_def process_menu_dwell_def Let_def)

lemma scroll_inputs_fit: "scroll_inputs (fst (fit L c A B)) = scroll_inputs c"
  by (simp add: scroll_inputs_def fit_def save_calibration_def)

lemma scroll_inputs_run_calibration:
  assumes "run_calibration L c fs = Some (c', effs, fs')"
  shows "scroll_inputs c' = scroll_inputs c"
proof (cases "collect c points [] [] fs")
  case None
  with assms show ?thesis by (simp add: run_calibration_def)
next
  case (Some res)
  obtain fin A B fs1 where res: "res = ((fin, A, B), fs1)" by (cases res) auto
  from assms Some res have "c' = c \<or> c' = fst (fit L c A B)"
    by (auto simp: run_calibration_def split: if_splits prod.splits)
  then show ?thesis using scroll_inputs_fit [of L c A B] by auto
qed

lemma finish_tick_dwell:
  assumes "finish_tick c ov f fs effs xy act fired = Inr r"
  shows "enabled (ctrl r) = enabled c
         \<and> (enabled c \<longrightarrow> dwell (ctrl r)
               = dwell (fst (process_dwell c (zone_for_point c (fst xy) (snd xy)) (time2 f))))"
proof -
  let ?c' = "if enabled c then fst (process_dwell c (zone_for_point c (fst xy) (snd xy)) (time2 f))
             else c"
  from assms have c: "ctrl r = ?c'"
    by (auto simp: finish_tick_def case_prod_beta split: sum.splits if_splits)
  have "enabled (fst (process_dwell c z t)) = enabled c" for z t
    by (simp add: process_dwell_def Let_def)
  with c show ?thesis by simp
qed

lemma menu_dispatch_dwell:
  assumes "menu_dispatch L c ov f fs xy act fired = Some (Inr r)"
    and "\<not> (fired \<and> act = Some ''exit'')" and "enabled (ctrl r)"
  shows "dwell (ctrl r)
           = dwell (fst (process_dwell c (zone_for_point c (fst xy) (snd xy)) (time2 f)))"
proof -
  have "\<exists>c' fs' effs. finish_tick c' ov f fs' effs xy act fired = Inr r
          \<and> scroll_inputs c' = scroll_inputs c"
  proof (cases "fired \<and> act = Some ''recalibrate''")
    case True
    with assms(1) obtain c' effs fs' where rc: "run_calibration L c fs = Some (c', effs, fs')"
      and ft: "finish_tick c' ov f fs' effs xy act fired = Inr r"
      by (auto simp: menu_dispatch_def split: option.splits)
    from scroll_inputs_run_calibration [OF rc] ft show ?thesis by blast
  next
    case False
    with assms(1,2) have "finish_tick c ov f fs [] xy act fired = Inr r
        \<or> finish_tick (c\<lparr>enabled := False\<rparr>) ov f fs [] xy act fired = Inr r
        \<or> finish_tick (c\<lparr>enabled := True\<rparr>) ov f fs [] xy act fired = Inr r"
      by (auto simp: menu_dispatch_def split: if_splits)
    moreover have "scroll_inputs (c\<lparr>enabled := b\<rparr>) = scroll_inputs c" for b
      by (simp add: scroll_inputs_def)
    ultimately show ?thesis by blast
  qed
  then obtain c' fs' effs where ft: "finish_tick c' ov f fs' effs xy act fired = Inr r"
    and si: "scroll_inputs c' = scroll_inputs c" by blast
  from finish_tick_dwell [OF ft] assms(3)
  have "dwell (ctrl r)
          = dwell (fst (process_dwell c' (zone_for_point c' (fst xy) (snd xy)) (time2 f)))"
    by simp
  with scroll_inputs_dwell [OF si] show ?thesis by simp
qed

lemma tick_zone_input:
  assumes "ok f" and "face f = Some lm" and "tick L c ov f fs = Some (Inr r)"
    and "screen_xy r = Some p"
    and "enabled (ctrl r)" and "\<not> (menu_fired r \<and> action r = Some ''exit'')"
  shows "dwell (ctrl r)
           = dwell (fst (process_dwell c (zone_for_point c (fst p) (snd p)) (time2 f)))"
proof (cases "map_to_screen c (compute_iris_center lm (frame_w f) (frame_h f)) (frame_w f) (frame_h f)")
  case (Inl e)
  with assms(1,2,3) show ?thesis by (simp add: tick_def Let_def)
next
  case (Inr mapped)
  let ?xy = "fst (update (smoother c) mapped)"
  let ?sm = "snd (update (smoother c) mapped)"
  let ?ov1 = "if is_in_base_circle ov (fst ?xy) (snd ?xy) then toggle_expand ov (Some True) else ov"
  let ?act = "action_at L ?ov1 (fst ?xy) (snd ?xy)"
  let ?pm = "process_menu_dwell (c\<lparr>smoother := ?sm\<rparr>) ?act (time1 f)"
  from assms(1,2,3) Inr
  have md: "menu_dispatch L (snd ?pm) (set_hover_action ?ov1 ?act) f fs ?xy ?act (fst ?pm)
      = Some (Inr r)"
    by (simp add: tick_def Let_def case_prod_beta)
  from menu_dispatch_fields [OF md] assms(4,6)
  have p: "p = ?xy" and ne: "\<not> (fst ?pm \<and> ?act = Some ''exit'')" by auto
  have si: "scroll_inputs (snd ?pm) = scroll_inputs c"
    using scroll_inputs_menu [of "c\<lparr>smoother := ?sm\<rparr>" ?act "time1 f"]
    by (simp add: scroll_inputs_def)
  from menu_dispatch_dwell [OF md ne assms(5)] scroll_inputs_dwell [OF si] p
  show ?thesis by simp
qed

lemma map_to_screen_matrix:
  "calibration_matrix c = Some M \<Longrightarrow> map_to_screen c g fw fh = Inr (dot M (fst g, snd g, 1))"
  by (simp add: map_to_screen_def)


lemma tick3:
  "tick example_libs smoothing_controller (CircularMenuOverlay_init 1000 800)
     (gaze_frame (3/25) (1/20) 7) fs
   = Some (Inr \<lparr>ctrl = smoothing_controller\<lparr>
                    smoother := \<lparr>alpha = 1/2, outlier_px = 50, last_pt = Some (110, 40)\<rparr>,
                    dwell := \<lparr>active_zone = Some ''scroll_up'', start_ts = 7, last_fire_ts = 0\<rparr>\<rparr>,
                ovl = CircularMenuOverlay_init 1000 800, rest = fs, effects = [],
                continue = True, screen_xy = Some (110, 40), action = None,
                menu_fired = False\<rparr>)"
  by (simp add: tick_eval smoothing_controller_def)

section \<open>Claims\<close>

text \<open>
  C9. For every smoother state with a stored last point and every input point: if the
  Euclidean distance between the input and the last point exceeds the outlier threshold,
  \<open>update\<close> returns the last point and leaves the smoother unchanged; otherwise it
  returns \<open>alpha * point + (1 - alpha) * last\<close> and stores that value.
\<close>

theorem update_outlier_or_blend:
  assumes "last_pt s = Some l"
  shows "update s p =
    (if sqrt ((fst p - fst l)\<^sup>2 + (snd p - snd l)\<^sup>2) > outlier_px s then (l, s)
     else ((alpha s * fst p + (1 - alpha s) * fst l, alpha s * snd p + (1 - alpha s) * snd l),
           s\<lparr>last_pt := Some (alpha s * fst p + (1 - alpha s) * fst l,
                               alpha s * snd p + (1 - alpha s) * snd l)\<rparr>))"
  using assms by (simp add: update_def norm2_def Let_def)

theorem update_outlier_or_blend_witness:
  "update \<lparr>alpha = 1/2, outlier_px = 50, last_pt = Some (100, 100)\<rparr> (200, 100)
     = ((100, 100), \<lparr>alpha = 1/2, outlier_px = 50, last_pt = Some (100, 100)\<rparr>)
   \<and> update \<lparr>alpha = 1/2, outlier_px = 50, last_pt = Some (100, 100)\<rparr> (110, 100)
     = ((105, 100), \<lparr>alpha = 1/2, outlier_px = 50, last_pt = Some (105, 100)\<rparr>)"
proof -
  let ?s = "\<lparr>alpha = 1/2, outlier_px = 50, last_pt = Some (100, 100)\<rparr>"
  have far: "sqrt ((fst (200, 100) - fst (100, 100))\<^sup>2 + (snd (200, 100) - snd (100, 100))\<^sup>2)
      > (50::real)"
    using norm2_gt_iff [of 50 "(100, 0)"] by (simp add: norm2_def)
  have near: "\<not> sqrt ((fst (110, 100) - fst (100, 100))\<^sup>2 + (snd (110, 100) - snd (100, 100))\<^sup>2)
      > (50::real)"
    using norm2_gt_iff [of 50 "(10, 0)"] by (simp add: norm2_def)
  have a: "update ?s (200, 100) = ((100, 100), ?s)"
    using update_outlier_or_blend [of ?s "(100, 100)" "(200, 100)"] far by simp
  have b: "update ?s (110, 100) = ((105, 100), ?s\<lparr>last_pt := Some (105, 100)\<rparr>)"
    using update_outlier_or_blend [of ?s "(100, 100)" "(110, 100)"] near by simp
  show ?thesis using a b by simp
qed

text \<open>
  C5. Scroll dwell, the observed zone being the active one and not \<open>None\<close>: no fire
  while \<open>now - last_fire_ts < cooldown\<close>; otherwise a fire exactly when
  \<open>now - start_ts \<ge> threshold\<close>, which records \<open>last_fire_ts = now\<close> and makes the zone's
  scroll call. With a sustained zone, every fire comes at least the threshold after the
  start of the dwell, and each fire at least the cooldown after the fire before it (the
  first one after the recorded \<open>last_fire_ts\<close>).
\<close>

theorem scroll_dwell_fire_timing:
  assumes "active_zone (dwell c) = Some z" and "z \<in> zone_names"
  shows "process_dwell c (Some z) now =
           (if now - last_fire_ts (dwell c) < cooldown_ms c / 1000 then (c, [])
            else if now - start_ts (dwell c) \<ge> threshold_ms c / 1000
            then (c\<lparr>dwell := (dwell c)\<lparr>last_fire_ts := now\<rparr>\<rparr>,
                  if z = ''scroll_up'' then scroll_up (scroll c)
                  else if z = ''scroll_down'' then scroll_down (scroll c)
                  else scroll_right (scroll c))
            else (c, []))
       \<and> (\<forall>t \<in> set (sustained_dwell c z ts). t - start_ts (dwell c) \<ge> threshold_ms c / 1000)
       \<and> successively (\<lambda>a b. b - a \<ge> cooldown_ms c / 1000)
            (last_fire_ts (dwell c) # sustained_dwell c z ts)"
proof -
  from assms(2) have "z = ''scroll_up'' \<or> z = ''scroll_down'' \<or> z = ''scroll_right''"
    by (simp add: zone_names_def)
  then have "process_dwell c (Some z) now =
           (if now - last_fire_ts (dwell c) < cooldown_ms c / 1000 then (c, [])
            else if now - start_ts (dwell c) \<ge> threshold_ms c / 1000
            then (c\<lparr>dwell := (dwell c)\<lparr>last_fire_ts := now\<rparr>\<rparr>,
                  if z = ''scroll_up'' then scroll_up (scroll c)
                  else if z = ''scroll_down'' then scroll_down (scroll c)
                  else scroll_right (scroll c))
            else (c, []))"
    unfolding process_dwell_same [OF assms(1)] by presburger
  then show ?thesis using sustained_dwell_fires [OF assms] by blast
qed


theorem scroll_dwell_fire_timing_witness:
  "process_dwell dwelling_controller (Some ''scroll_up'') (1005/10)
     = (dwelling_controller\<lparr>dwell := \<lparr>active_zone = Some ''scroll_up'', start_ts = 100,
                                       last_fire_ts = 1005/10\<rparr>\<rparr>,
        [mouse_event 0x0800 0 0 120 0])
   \<and> process_dwell dwelling_controller (Some ''scroll_up'') (1004/10) = (dwelling_controller, [])
   \<and> sustained_dwell dwelling_controller ''scroll_up''
        [1001/10, 1004/10, 1005/10, 1006/10, 1014/10, 1015/10] = [1005/10, 1015/10]
   \<and> successively (\<lambda>a b. b - a \<ge> cooldown_ms dwelling_controller / 1000)
        [0, 1005/10, 1015/10]"
proof -
  have a: "active_zone (dwell dwelling_controller) = Some ''scroll_up''"
    by (simp add: dwelling_controller_def)
  have z: "''scroll_up'' \<in> zone_names" by (simp add: zone_names_def)
  have s: "start_ts (dwell dwelling_controller) = 100"
    "last_fire_ts (dwell dwelling_controller) = 0"
    "cooldown_ms dwelling_controller = 1000" "threshold_ms dwelling_controller = 500"
    "scroll dwelling_controller = \<lparr>amount = 120, interval_ms = 100\<rparr>"
    "dwell dwelling_controller = \<lparr>active_zone = Some ''scroll_up'', start_ts = 100,
                                  last_fire_ts = 0\<rparr>"
    by (simp_all add: dwelling_controller_def example_controller_def)
  note t = scroll_dwell_fire_timing [OF a z]
  have 1: "process_dwell dwelling_controller (Some ''scroll_up'') (1005/10)
     = (dwelling_controller\<lparr>dwell := \<lparr>active_zone = Some ''scroll_up'', start_ts = 100,
                                       last_fire_ts = 1005/10\<rparr>\<rparr>,
        [mouse_event 0x0800 0 0 120 0])"
    using t [of "1005/10" "[]"] by (simp add: s scroll_up_def scroll_delta_def)
  have 2: "process_dwell dwelling_controller (Some ''scroll_up'') (1004/10) = (dwelling_controller, [])"
    using t [of "1004/10" "[]"] by (simp add: s)
  have 3: "successively (\<lambda>a b. b - a \<ge> cooldown_ms dwelling_controller / 1000)
        (0 # sustained_dwell dwelling_controller ''scroll_up''
        [1001/10, 1004/10, 1005/10, 1006/10, 1014/10, 1015/10])"
    using t [of 0 "[1001/10, 1004/10, 1005/10, 1006/10, 1014/10, 1015/10]", THEN conjunct2, THEN conjunct2]
    by (simp only: s(2))
  show ?thesis using 1 2 3 dwelling_run by simp
qed

text \<open>
  C7. Both dwell machines, in every state: when the observed target differs from the
  active one (a change to or from \<open>None\<close> included), the call sets the active target
  to the observed one and the start time to \<open>now\<close>, leaves the last fire time alone and
  does not fire, whatever the cooldown and the last fire time are.
\<close>

theorem dwell_target_change_restarts_timer:
  "(zone \<noteq> active_zone (dwell c) \<longrightarrow>
      process_dwell c zone now =
        (c\<lparr>dwell := \<lparr>active_zone = zone, start_ts = now,
                       last_fire_ts = last_fire_ts (dwell c)\<rparr>\<rparr>, []))
   \<and> (act \<noteq> active_zone (menu_dwell c) \<longrightarrow>
      process_menu_dwell c act now =
        (False, c\<lparr>menu_dwell := \<lparr>active_zone = act, start_ts = now,
                                   last_fire_ts = last_fire_ts (menu_dwell c)\<rparr>\<rparr>))"
  by (simp add: process_dwell_def process_menu_dwell_def Let_def)

theorem dwell_target_change_restarts_timer_witness:
  "process_dwell dwelling_controller None (1001/10)
     = (dwelling_controller\<lparr>dwell := \<lparr>active_zone = None, start_ts = 1001/10,
                                       last_fire_ts = 0\<rparr>\<rparr>, [])
   \<and> process_dwell (dwelling_controller\<lparr>cooldown_ms := 10 ^ 9\<rparr>) (Some ''scroll_down'') 200
     = (dwelling_controller\<lparr>cooldown_ms := 10 ^ 9,
          dwell := \<lparr>active_zone = Some ''scroll_down'', start_ts = 200, last_fire_ts = 0\<rparr>\<rparr>, [])
   \<and> process_menu_dwell dwelling_controller (Some ''pause'') 7
     = (False, dwelling_controller\<lparr>menu_dwell := \<lparr>active_zone = Some ''pause'', start_ts = 7,
                                                    last_fire_ts = 0\<rparr>\<rparr>)"
proof -
  have d: "dwell dwelling_controller = \<lparr>active_zone = Some ''scroll_up'', start_ts = 100,
                                  last_fire_ts = 0\<rparr>"
    "menu_dwell dwelling_controller = \<lparr>active_zone = None, start_ts = 0, last_fire_ts = 0\<rparr>"
    by (simp_all add: dwelling_controller_def example_controller_def DwellState_init_def)
  have 1: "process_dwell dwelling_controller None (1001/10)
     = (dwelling_controller\<lparr>dwell := \<lparr>active_zone = None, start_ts = 1001/10,
                                       last_fire_ts = 0\<rparr>\<rparr>, [])"
    using dwell_target_change_restarts_timer [of None dwelling_controller "1001/10" None]
    by (simp add: d)
  have 2: "process_dwell (dwelling_controller\<lparr>cooldown_ms := 10 ^ 9\<rparr>) (Some ''scroll_down'') 200
     = (dwelling_controller\<lparr>cooldown_ms := 10 ^ 9,
          dwell := \<lparr>active_zone = Some ''scroll_down'', start_ts = 200, last_fire_ts = 0\<rparr>\<rparr>, [])"
    using dwell_target_change_restarts_timer
      [of "Some ''scroll_down''" "dwelling_controller\<lparr>cooldown_ms := 10 ^ 9\<rparr>" 200 None]
    by (simp add: d)
  have 3: "process_menu_dwell dwelling_controller (Some ''pause'') 7
     = (False, dwelling_controller\<lparr>menu_dwell := \<lparr>active_zone = Some ''pause'', start_ts = 7,
                                                    last_fire_ts = 0\<rparr>\<rparr>)"
    using dwell_target_change_restarts_timer [of "Some ''scroll_up''" dwelling_controller 7 "Some ''pause''"]
    by (simp add: d)
  show ?thesis using 1 2 3 by simp
qed

text \<open>
  C6, as stated, fails: a menu action that stays the same fires again and again. The fire
  resets the active target to \<open>None\<close>, so the next call sees a change, restarts the
  timer, and the call after the threshold fires once more.
\<close>

theorem menu_dwell_refires_counterexample:
  "sustained_menu example_controller ''pause'' [0, 1, 2, 3] = [False, True, False, True]"
  by (simp add: example_controller_def process_menu_dwell_def Let_def DwellState_init_def)

text \<open>
  C6, amended. With the observed action equal to the active one and not \<open>None\<close>, the
  menu dwell fires exactly when \<open>now - start_ts \<ge> threshold\<close>, and the fire resets the
  active target to \<open>None\<close>; the cooldown and the last fire time have no influence on the
  returned flag; after a fire the next call with the same action does not fire and
  restarts the timer at its own time; so a sustained action never fires on two calls in a
  row.
\<close>

theorem menu_dwell_fires_on_threshold_then_restarts:
  "(active_zone (menu_dwell c) = Some a \<longrightarrow>
      process_menu_dwell c (Some a) now =
        (if now - start_ts (menu_dwell c) \<ge> threshold_ms c / 1000
         then (True, c\<lparr>menu_dwell := (menu_dwell c)\<lparr>active_zone := None\<rparr>\<rparr>)
         else (False, c)))
   \<and> fst (process_menu_dwell
            (c\<lparr>cooldown_ms := cd, menu_dwell := (menu_dwell c)\<lparr>last_fire_ts := lf\<rparr>\<rparr>) act now)
       = fst (process_menu_dwell c act now)
   \<and> process_menu_dwell (c\<lparr>menu_dwell := (menu_dwell c)\<lparr>active_zone := None\<rparr>\<rparr>) (Some a) now'
       = (False, c\<lparr>menu_dwell := (menu_dwell c)\<lparr>active_zone := Some a, start_ts := now'\<rparr>\<rparr>)
   \<and> successively (\<lambda>x y. \<not> (x \<and> y)) (sustained_menu c a ts)"
proof -
  have 1: "active_zone (menu_dwell c) = Some a \<longrightarrow>
      process_menu_dwell c (Some a) now =
        (if now - start_ts (menu_dwell c) \<ge> threshold_ms c / 1000
         then (True, c\<lparr>menu_dwell := (menu_dwell c)\<lparr>active_zone := None\<rparr>\<rparr>)
         else (False, c))"
    by (simp add: process_menu_dwell_def Let_def)
  have 2: "fst (process_menu_dwell
            (c\<lparr>cooldown_ms := cd, menu_dwell := (menu_dwell c)\<lparr>last_fire_ts := lf\<rparr>\<rparr>) act now)
       = fst (process_menu_dwell c act now)"
    by (simp add: process_menu_dwell_def Let_def)
  have 3: "process_menu_dwell (c\<lparr>menu_dwell := (menu_dwell c)\<lparr>active_zone := None\<rparr>\<rparr>) (Some a) now'
       = (False, c\<lparr>menu_dwell := (menu_dwell c)\<lparr>active_zone := Some a, start_ts := now'\<rparr>\<rparr>)"
    by (simp add: process_menu_dwell_def Let_def)
  show ?thesis using 1 2 3 sustained_menu_no_double [of c a ts] by blast
qed

theorem menu_dwell_fires_on_threshold_then_restarts_witness:
  "process_menu_dwell menu_dwelling_controller (Some ''pause'') (1005/10)
     = (True, menu_dwelling_controller\<lparr>menu_dwell :=
                \<lparr>active_zone = None, start_ts = 100, last_fire_ts = 0\<rparr>\<rparr>)
   \<and> process_menu_dwell menu_dwelling_controller (Some ''pause'') (1004/10)
     = (False, menu_dwelling_controller)
   \<and> successively (\<lambda>x y. \<not> (x \<and> y)) (sustained_menu example_controller ''pause'' [0, 1, 2, 3])"
proof -
  have d: "menu_dwell menu_dwelling_controller
             = \<lparr>active_zone = Some ''pause'', start_ts = 100, last_fire_ts = 0\<rparr>"
    "threshold_ms menu_dwelling_controller = 500"
    by (simp_all add: menu_dwelling_controller_def example_controller_def)
  have 1: "process_menu_dwell menu_dwelling_controller (Some ''pause'') (1005/10)
     = (True, menu_dwelling_controller\<lparr>menu_dwell :=
                \<lparr>active_zone = None, start_ts = 100, last_fire_ts = 0\<rparr>\<rparr>)"
    using menu_dwell_fires_on_threshold_then_restarts
      [of menu_dwelling_controller "''pause''" "1005/10" 0 0 None 0 "[]"]
    by (simp add: d)
  have 2: "process_menu_dwell menu_dwelling_controller (Some ''pause'') (1004/10)
     = (False, menu_dwelling_controller)"
    using menu_dwell_fires_on_threshold_then_restarts
      [of menu_dwelling_controller "''pause''" "1004/10" 0 0 None 0 "[]"]
    by (simp add: d)
  have 3: "successively (\<lambda>x y. \<not> (x \<and> y)) (sustained_menu example_controller ''pause'' [0, 1, 2, 3])"
    using menu_dwell_fires_on_threshold_then_restarts
      [of example_controller "''pause''" 0 0 0 None 0 "[0, 1, 2, 3]"]
    by blast
  show ?thesis using 1 2 3 by blast
qed

text \<open>
  C8. A pass of the loop on a read without a face: the pass completes, and both dwell
  states, the smoother, and with them the whole controller and the overlay are as
  before; nothing is emitted.
\<close>

theorem no_gaze_tick_leaves_state:
  assumes "face f = None"
  shows "\<exists>r. tick L c ov f fs = Some (Inr r)
           \<and> dwell (ctrl r) = dwell c \<and> menu_dwell (ctrl r) = menu_dwell c
           \<and> smoother (ctrl r) = smoother c \<and> ctrl r = c \<and> ovl r = ov \<and> effects r = []"
  using tick_no_face [OF assms, of L c ov fs] by simp

theorem no_gaze_tick_leaves_state_witness:
  "\<exists>r. tick example_libs dwelling_controller (CircularMenuOverlay_init 1000 800)
          (blank_frame 5) [] = Some (Inr r)
       \<and> dwell (ctrl r) = \<lparr>active_zone = Some ''scroll_up'', start_ts = 100, last_fire_ts = 0\<rparr>
       \<and> ctrl r = dwelling_controller"
proof -
  have "face (blank_frame 5) = None" by (simp add: blank_frame_def)
  from no_gaze_tick_leaves_state [OF this, of example_libs dwelling_controller
      "CircularMenuOverlay_init 1000 800" "[]"]
  show ?thesis by (auto simp: dwelling_controller_def)
qed

text \<open>
  C1, as stated, fails: the loop maps the raw point first and smooths the mapped point.
  From a fresh smoother and the raw points (64, 48) and (104, 48) of a 640 x 480 frame, the
  loop's second point is the first one again, since the mapped points are 62.5 px apart
  and the second is rejected as an outlier, while smoothing the raw points (40 px apart)
  before mapping gives (131.25, 80).
\<close>

theorem smooth_then_map_counterexample:
  "map screen_xy (fst (run_loop example_libs example_controller (CircularMenuOverlay_init 1000 800)
        [gaze_frame (1/10) (1/10) 0, gaze_frame (13/80) (1/10) 1]))
     = [Some (100, 80), Some (100, 80)]
   \<and> spec_points example_controller (smoother example_controller) [(64, 48), (104, 48)] 640 480
     = [(100, 80), (525 / 4, 80)]"
  by (simp add: tick1 tick2 spec_smooth_map_clamp_def update_code map_to_screen_def clip_def
        example_fields Let_def power2_eq_square)

text \<open>
  C1, amended. In every pass that finds a face and completes, the calibration mapping is
  applied to the raw iris point, and the smoother is applied to the mapped point: the
  pass's screen point is what \<open>update\<close> returns for the mapped point, and the smoother
  after the pass is the one \<open>update\<close> leaves. Nothing clamps the point.
\<close>

theorem gaze_point_mapped_then_smoothed:
  assumes "ok f" and "face f = Some lm" and "tick L c ov f fs = Some (Inr r)"
  shows "\<exists>mapped. map_to_screen c (compute_iris_center lm (frame_w f) (frame_h f))
                    (frame_w f) (frame_h f) = Inr mapped
           \<and> screen_xy r = Some (fst (update (smoother c) mapped))
           \<and> smoother (ctrl r) = snd (update (smoother c) mapped)"
  using tick_face [OF assms] by blast

theorem gaze_point_mapped_then_smoothed_witness:
  "\<exists>mapped. map_to_screen example_controller (compute_iris_center (\<lambda>i. (1/10, 1/10)) 640 480)
               640 480 = Inr mapped
      \<and> mapped = (100, 80)
      \<and> Some (100, 80) = Some (fst (update (smoother example_controller) mapped))
      \<and> \<lparr>alpha = 1/2, outlier_px = 50, last_pt = Some (100, 80)\<rparr>
          = snd (update (smoother example_controller) mapped)"
proof -
  let ?f = "gaze_frame (1/10) (1/10) 0"
  have f: "ok ?f" "face ?f = Some (\<lambda>i. (1/10, 1/10))" "frame_w ?f = 640" "frame_h ?f = 480"
    by (simp_all add: gaze_frame_def)
  from gaze_point_mapped_then_smoothed [OF f(1) f(2) tick1 [of "[]"]]
  obtain mapped where m: "map_to_screen example_controller
        (compute_iris_center (\<lambda>i. (1/10, 1/10)) 640 480) 640 480 = Inr mapped"
    and r: "Some (100, 80) = Some (fst (update (smoother example_controller) mapped))"
       "\<lparr>alpha = 1/2, outlier_px = 50, last_pt = Some (100, 80)\<rparr>
          = snd (update (smoother example_controller) mapped)"
    by (auto simp: f)
  from m have "mapped = (100, 80)"
    by (simp add: iris_at map_to_screen_def clip_def example_fields)
  with m r show ?thesis by blast
qed

text \<open>
  C2, as stated, fails: nothing clamps the point before the zone classification. With a
  calibration matrix that shifts x by -100 the raw point (64, 48) gives the screen point
  (-36, 48), which is classified as \<open>scroll_up\<close>; without a matrix a raw point on the
  right edge of the frame gives x = 1000, the screen width itself.
\<close>

theorem unclamped_point_counterexample:
  "(\<exists>r. tick example_libs (example_controller\<lparr>calibration_matrix := Some ((1, 0, -100), (0, 1, 0))\<rparr>)
           (CircularMenuOverlay_init 1000 800) (gaze_frame (1/10) (1/10) 0) [] = Some (Inr r)
        \<and> screen_xy r = Some (-36, 48) \<and> active_zone (dwell (ctrl r)) = Some ''scroll_up'')
   \<and> (\<exists>r. tick example_libs example_controller
           (CircularMenuOverlay_init 1000 800) (gaze_frame 1 (1/2) 0) [] = Some (Inr r)
        \<and> screen_xy r = Some (1000, 400) \<and> active_zone (dwell (ctrl r)) = Some ''scroll_right'')"
  by (simp add: tick_eval dot_def)

text \<open>
  C2, amended. Nothing clamps the point. In every pass that has a screen point, that point
  is what \<open>update\<close> returns for the mapped point, and when the pass reaches the scroll
  dwell (the controller is enabled and the pass was not left by \<open>exit\<close>) the dwell state
  after the pass is the one \<open>_process_dwell\<close> gives for the zone of exactly that point.
  Without a calibration matrix and with screen dimensions that are not negative, the
  mapped point is inside the closed rectangle \<open>[0, screen_w] x [0, screen_h]\<close>; with a
  matrix \<open>M\<close> it is \<open>M (x, y, 1)\<close> as computed.
\<close>

theorem zone_classifies_unclamped_point:
  assumes "tick L c ov f fs = Some (Inr r)" and "screen_xy r = Some p"
  shows "\<exists>lm mapped. face f = Some lm
      \<and> map_to_screen c (compute_iris_center lm (frame_w f) (frame_h f)) (frame_w f) (frame_h f)
          = Inr mapped
      \<and> p = fst (update (smoother c) mapped)
      \<and> (enabled (ctrl r) \<and> \<not> (menu_fired r \<and> action r = Some ''exit'')
           \<longrightarrow> dwell (ctrl r)
                 = dwell (fst (process_dwell c (zone_for_point c (fst p) (snd p)) (time2 f))))
      \<and> (calibration_matrix c = None \<and> 0 \<le> screen_w c \<and> 0 \<le> screen_h c
           \<longrightarrow> on_screen c mapped)
      \<and> (\<forall>M. calibration_matrix c = Some M
           \<longrightarrow> mapped = dot M (fst (compute_iris_center lm (frame_w f) (frame_h f)),
                                snd (compute_iris_center lm (frame_w f) (frame_h f)), 1))"
proof -
  from tick_point_has_face [OF assms] obtain lm where f: "ok f" "face f = Some lm" by blast
  from tick_face [OF f assms(1)] assms(2) obtain mapped
    where m: "map_to_screen c (compute_iris_center lm (frame_w f) (frame_h f))
                (frame_w f) (frame_h f) = Inr mapped"
      and p: "p = fst (update (smoother c) mapped)"
    by auto
  have z: "enabled (ctrl r) \<and> \<not> (menu_fired r \<and> action r = Some ''exit'')
           \<longrightarrow> dwell (ctrl r)
                 = dwell (fst (process_dwell c (zone_for_point c (fst p) (snd p)) (time2 f)))"
    using tick_zone_input [OF f assms] by blast
  have b: "calibration_matrix c = None \<and> 0 \<le> screen_w c \<and> 0 \<le> screen_h c
           \<longrightarrow> on_screen c mapped"
    using map_fallback_on_screen [OF _ _ _ m] by blast
  have mm: "\<forall>M. calibration_matrix c = Some M
           \<longrightarrow> mapped = dot M (fst (compute_iris_center lm (frame_w f) (frame_h f)),
                                snd (compute_iris_center lm (frame_w f) (frame_h f)), 1)"
    using m by (auto simp: map_to_screen_def)
  from f(2) m p z b mm show ?thesis by blast
qed

theorem zone_classifies_unclamped_point_witness:
  "\<exists>r. tick example_libs smoothing_controller (CircularMenuOverlay_init 1000 800)
          (gaze_frame (3/25) (1/20) 7) [] = Some (Inr r)
       \<and> screen_xy r = Some (110, 40)
       \<and> fst (update (smoother smoothing_controller) (120, 40)) = (110, 40)
       \<and> on_screen smoothing_controller (120, 40)
       \<and> dwell (ctrl r) = \<lparr>active_zone = Some ''scroll_up'', start_ts = 7, last_fire_ts = 0\<rparr>
       \<and> dwell (ctrl r) = dwell (fst (process_dwell smoothing_controller
                                    (zone_for_point smoothing_controller 110 40) 7))"
proof -
  let ?c = smoothing_controller
  let ?f = "gaze_frame (3/25) (1/20) 7"
  let ?r = "\<lparr>ctrl = ?c\<lparr>
                    smoother := \<lparr>alpha = 1/2, outlier_px = 50, last_pt = Some (110, 40)\<rparr>,
                    dwell := \<lparr>active_zone = Some ''scroll_up'', start_ts = 7, last_fire_ts = 0\<rparr>\<rparr>,
                ovl = CircularMenuOverlay_init 1000 800, rest = [], effects = [],
                continue = True, screen_xy = Some (110, 40), action = None,
                menu_fired = False\<rparr>"
  have t: "tick example_libs ?c (CircularMenuOverlay_init 1000 800) ?f [] = Some (Inr ?r)"
    by (rule tick3)
  have xy: "screen_xy ?r = Some (110, 40)" by simp
  have c: "calibration_matrix ?c = None" "0 \<le> screen_w ?c" "0 \<le> screen_h ?c"
    "enabled (ctrl ?r)" "\<not> (menu_fired ?r \<and> action ?r = Some ''exit'')"
    by (simp_all add: smoothing_controller_def example_fields)
  have fr: "face ?f = Some (\<lambda>i. (3/25, 1/20))" "frame_w ?f = 640" "frame_h ?f = 480"
    "time2 ?f = 7"
    by (simp_all add: gaze_frame_def)
  note th = zone_classifies_unclamped_point [OF t xy]
  from th obtain lm mapped where
    lm: "face ?f = Some lm"
    and m: "map_to_screen ?c (compute_iris_center lm (frame_w ?f) (frame_h ?f))
              (frame_w ?f) (frame_h ?f) = Inr mapped"
    and p: "(110, 40) = fst (update (smoother ?c) mapped)"
    and z': "enabled (ctrl ?r) \<and> \<not> (menu_fired ?r \<and> action ?r = Some ''exit'')
           \<longrightarrow> dwell (ctrl ?r) = dwell (fst (process_dwell ?c
               (zone_for_point ?c (fst ((110, 40)::point)) (snd ((110, 40)::point))) (time2 ?f)))"
    and b': "calibration_matrix ?c = None \<and> 0 \<le> screen_w ?c \<and> 0 \<le> screen_h ?c
           \<longrightarrow> on_screen ?c mapped"
    by (elim exE conjE)
  from z' c(4,5) have z: "dwell (ctrl ?r) = dwell (fst (process_dwell ?c
               (zone_for_point ?c (fst ((110, 40)::point)) (snd ((110, 40)::point))) (time2 ?f)))"
    by (rule mp [OF _ conjI])
  from b' c(1,2,3) have b: "on_screen ?c mapped" by (intro mp [OF b'] conjI)
  from lm fr(1) have "lm = (\<lambda>i. (3/25, 1/20))" by simp
  with m have mapped: "mapped = (120, 40)"
    by (simp add: gaze_frame_def iris_at map_to_screen_def clip_def smoothing_controller_def
          example_fields Let_def)
  have r3: "fst (update (smoother ?c) (120, 40)) = (110, 40)"
    using p [symmetric] unfolding mapped .
  have r4: "on_screen ?c (120, 40)" using b unfolding mapped .
  have r5: "dwell (ctrl ?r) = \<lparr>active_zone = Some ''scroll_up'', start_ts = 7, last_fire_ts = 0\<rparr>"
    by simp
  have r6: "dwell (ctrl ?r) = dwell (fst (process_dwell ?c (zone_for_point ?c 110 40) 7))"
    using z by (simp only: fst_conv snd_conv fr(4))
  show ?thesis
    by (rule exI [of _ ?r]) (intro conjI t xy r3 r4 r5 r6)
qed

text \<open>
  C3, as stated, fails: \<open>run_calibration\<close> has no way to report anything. A run whose
  first read fails collects no correspondence and returns like any other run, with the
  controller as it was and nothing written.
\<close>

theorem insufficient_data_unreported_counterexample:
  "collect example_controller points [] [] [failed_read] = Some ((False, [], []), [])
   \<and> run_calibration example_libs example_controller [failed_read]
       = Some (example_controller, [], [])"
  by (simp add: run_calibration_def points_def failed_read_def)

text \<open>
  C3, amended. Whatever the sweep collected: with fewer than 3 correspondences, and
  whenever a read failed before the sweep was complete, \<open>run_calibration\<close> returns the
  controller unchanged and writes nothing; a sweep that ran to its end has collected 5
  correspondences, and then the least-squares result, transposed, becomes the
  calibration matrix and is written to the configuration.
\<close>

theorem run_calibration_updates_only_after_full_sweep:
  assumes "collect c points [] [] fs = Some ((finished, A, B), fs')"
  shows "(length A < 3 \<longrightarrow> run_calibration L c fs = Some (c, [], fs'))
       \<and> (\<not> finished \<longrightarrow> run_calibration L c fs = Some (c, [], fs'))
       \<and> (finished \<longrightarrow> length A = 5
            \<and> run_calibration L c fs
                = Some (c\<lparr>calibration_matrix := Some (transpose32 (lstsq L A B))\<rparr>,
                        [json_dump (Some (transpose32 (lstsq L A B)))], fs'))"
proof -
  have unf: "\<not> finished \<Longrightarrow> run_calibration L c fs = Some (c, [], fs')"
    using assms by (simp add: run_calibration_def)
  have len: "finished \<Longrightarrow> length A = 5"
    using assms collect_finished_length [of c points "[]" "[]" fs A B fs']
    by (simp add: points_def)
  have fin: "finished \<Longrightarrow> run_calibration L c fs
                = Some (c\<lparr>calibration_matrix := Some (transpose32 (lstsq L A B))\<rparr>,
                        [json_dump (Some (transpose32 (lstsq L A B)))], fs')"
    using assms len by (simp add: run_calibration_def fit_def save_calibration_def)
  from unf len fin show ?thesis by force
qed

theorem run_calibration_updates_only_after_full_sweep_witness:
  "run_calibration example_libs example_controller [gaze_frame (1/2) (1/2) 0, failed_read]
     = Some (example_controller, [], [])
   \<and> run_calibration example_libs example_controller sweep_frames
     = Some (example_controller\<lparr>calibration_matrix := Some ((25/16, 0, 0), (0, 5/3, 0))\<rparr>,
             [json_dump (Some ((25/16, 0, 0), (0, 5/3, 0)))], [])"
proof -
  have a: "collect example_controller points [] [] [gaze_frame (1/2) (1/2) 0, failed_read]
             = Some ((False, [], []), [])"
    by (simp add: points_def gaze_frame_def failed_read_def iris_at)
  have 1: "run_calibration example_libs example_controller [gaze_frame (1/2) (1/2) 0, failed_read]
     = Some (example_controller, [], [])"
    using run_calibration_updates_only_after_full_sweep [OF a, of example_libs] by simp
  have 2: "run_calibration example_libs example_controller sweep_frames
     = Some (example_controller\<lparr>calibration_matrix := Some ((25/16, 0, 0), (0, 5/3, 0))\<rparr>,
             [json_dump (Some ((25/16, 0, 0), (0, 5/3, 0)))], [])"
    using run_calibration_updates_only_after_full_sweep [OF sweep_collect [of "[]", simplified],
        of example_libs]
    by (simp add: example_libs_def transpose32_def)
  show ?thesis using 1 2 by simp
qed

text \<open>
  C4. The fit passes the collected rows and targets to \<open>lstsq\<close> and stores the transposed
  3 x 2 result as the 2 x 3 matrix. First part: for at least 3 rows \<open>(x, y, 1)\<close> whose
  targets come from an affine map \<open>M0\<close>, when \<open>lstsq\<close> returns a least-squares solution of
  each channel, the mapping with the fitted matrix sends every raw point \<open>(x, y)\<close> to its
  target (in exact arithmetic). Second part: the rows a completed sweep collects have the
  constant 1 as third component, and for them \<open>run_calibration\<close> stores and writes such a
  matrix.
\<close>

theorem fit_reproduces_affine_targets:
  "(3 \<le> length A \<and> (\<forall>s \<in> set A. snd (snd s) = 1) \<and> B = map (dot M0) A
      \<and> least_squares A B (lstsq L A B)
    \<longrightarrow> fit L c A B = (c\<lparr>calibration_matrix := Some (transpose32 (lstsq L A B))\<rparr>,
                         [json_dump (Some (transpose32 (lstsq L A B)))])
        \<and> (\<forall>s \<in> set A. map_to_screen (fst (fit L c A B)) (fst s, fst (snd s)) fw fh
                            = Inr (dot M0 s)))
   \<and> (collect c points [] [] fs = Some ((True, A, B), fs') \<and> B = map (dot M0) A
      \<and> least_squares A B (lstsq L A B)
    \<longrightarrow> (\<forall>s \<in> set A. snd (snd s) = 1)
        \<and> (\<exists>c'. run_calibration L c fs = Some (c', [json_dump (calibration_matrix c')], fs')
               \<and> calibration_matrix c' = Some (transpose32 (lstsq L A B))
               \<and> (\<forall>s \<in> set A. map_to_screen c' (fst s, fst (snd s)) fw fh = Inr (dot M0 s))))"
proof -
  let ?M = "transpose32 (lstsq L A B)"
  let ?c' = "c\<lparr>calibration_matrix := Some ?M\<rparr>"
  have maps: "\<forall>s \<in> set A. map_to_screen ?c' (fst s, fst (snd s)) fw fh = Inr (dot M0 s)"
    if rows: "\<forall>s \<in> set A. snd (snd s) = 1" and B: "B = map (dot M0) A"
      and ls: "least_squares A B (lstsq L A B)"
  proof
    fix s assume s: "s \<in> set A"
    from ls B have "least_squares A (map (dot M0) A) (lstsq L A B)" by simp
    from least_squares_exact [OF this s] rows s
    have "dot ?M (fst s, fst (snd s), 1) = dot M0 s" by blast
    then show "map_to_screen ?c' (fst s, fst (snd s)) fw fh = Inr (dot M0 s)"
      by (simp add: map_to_screen_def)
  qed
  have fit3: "fit L c A B = (?c', [json_dump (Some ?M)])" if "3 \<le> length A"
    using that by (simp add: fit_def save_calibration_def)
  have part1: "fit L c A B = (?c', [json_dump (Some ?M)])
        \<and> (\<forall>s \<in> set A. map_to_screen (fst (fit L c A B)) (fst s, fst (snd s)) fw fh
                            = Inr (dot M0 s))"
    if "3 \<le> length A" "\<forall>s \<in> set A. snd (snd s) = 1" "B = map (dot M0) A"
      "least_squares A B (lstsq L A B)"
    using fit3 [OF that(1)] maps [OF that(2,3,4)] by simp
  have part2: "(\<forall>s \<in> set A. snd (snd s) = 1)
        \<and> (\<exists>c'. run_calibration L c fs = Some (c', [json_dump (calibration_matrix c')], fs')
               \<and> calibration_matrix c' = Some ?M
               \<and> (\<forall>s \<in> set A. map_to_screen c' (fst s, fst (snd s)) fw fh = Inr (dot M0 s)))"
    if col: "collect c points [] [] fs = Some ((True, A, B), fs')" and B: "B = map (dot M0) A"
      and ls: "least_squares A B (lstsq L A B)"
  proof -
    from collect_rows [OF col] have rows: "\<forall>s \<in> set A. snd (snd s) = 1" by simp
    from collect_finished_length [OF col] have len: "3 \<le> length A" by (simp add: points_def)
    from col fit3 [OF len] have "run_calibration L c fs = Some (?c', [json_dump (Some ?M)], fs')"
      by (simp add: run_calibration_def)
    then have "run_calibration L c fs = Some (?c', [json_dump (calibration_matrix ?c')], fs')
               \<and> calibration_matrix ?c' = Some ?M" by simp
    with maps [OF rows B ls] rows show ?thesis by blast
  qed
  from part1 part2 show ?thesis by blast
qed

theorem fit_reproduces_affine_targets_witness:
  "fit shear_libs example_controller
      [(500, 390, 1), (132, 70, 1), (932, 70, 1), (68, 710, 1), (868, 710, 1)]
      [(500, 400), (100, 80), (900, 80), (100, 720), (900, 720)]
     = (example_controller\<lparr>calibration_matrix := Some ((1, 1/10, -39), (0, 1, 10))\<rparr>,
        [json_dump (Some ((1, 1/10, -39), (0, 1, 10)))])
   \<and> (\<exists>c'. run_calibration shear_libs example_controller shear_sweep_frames
              = Some (c', [json_dump (calibration_matrix c')], [])
          \<and> calibration_matrix c' = Some ((1, 1/10, -39), (0, 1, 10))
          \<and> map (\<lambda>p. map_to_screen c' p 1000 800)
               [(500, 390), (132, 70), (932, 70), (68, 710), (868, 710)]
             = map Inr [(500, 400), (100, 80), (900, 80), (100, 720), (900, 720)])"
proof -
  let ?A = "[(500, 390, 1), (132, 70, 1), (932, 70, 1), (68, 710, 1), (868, 710, 1)]
            :: (real \<times> real \<times> real) list"
  let ?B = "[(500, 400), (100, 80), (900, 80), (100, 720), (900, 720)] :: point list"
  let ?M0 = "((1, 1/10, -39), (0, 1, 10)) :: mat23"
  have len: "3 \<le> length ?A" by simp
  have rows: "\<forall>s \<in> set ?A. snd (snd s) = 1" by simp
  have B: "?B = map (dot ?M0) ?A" by (rule shear_targets)
  have ls: "least_squares ?A ?B (lstsq shear_libs ?A ?B)"
    unfolding B by (rule shear_lstsq_exact)
  have X: "transpose32 (lstsq shear_libs ?A ?B) = ?M0"
    by (simp add: shear_libs_def example_libs_def transpose32_def)
  note t = fit_reproduces_affine_targets [of ?A ?B ?M0 shear_libs example_controller 1000 800
      shear_sweep_frames "[]"]
  have h1: "3 \<le> length ?A \<and> (\<forall>s \<in> set ?A. snd (snd s) = 1) \<and> ?B = map (dot ?M0) ?A
      \<and> least_squares ?A ?B (lstsq shear_libs ?A ?B)"
    using len rows B ls by (intro conjI)
  have h2: "collect example_controller points [] [] shear_sweep_frames = Some ((True, ?A, ?B), [])
      \<and> ?B = map (dot ?M0) ?A \<and> least_squares ?A ?B (lstsq shear_libs ?A ?B)"
    using shear_sweep_collect B ls by (intro conjI)
  from t [THEN conjunct1, THEN mp, OF h1] have 1: "fit shear_libs example_controller ?A ?B
     = (example_controller\<lparr>calibration_matrix := Some ?M0\<rparr>, [json_dump (Some ?M0)])"
    unfolding X by (rule conjunct1)
  from t [THEN conjunct2, THEN mp, OF h2] obtain c' where
    rc: "run_calibration shear_libs example_controller shear_sweep_frames
              = Some (c', [json_dump (calibration_matrix c')], [])"
    and cm: "calibration_matrix c' = Some (transpose32 (lstsq shear_libs ?A ?B))"
    and mp: "\<forall>s \<in> set ?A. map_to_screen c' (fst s, fst (snd s)) 1000 800 = Inr (dot ?M0 s)"
    by blast
  from mp have "map (\<lambda>p. map_to_screen c' p 1000 800)
               [(500, 390), (132, 70), (932, 70), (68, 710), (868, 710)] = map Inr ?B"
    by (simp add: dot_def)
  with rc cm X 1 show ?thesis by auto
qed

text \<open>
  C10. The hit test of an overlay that is not expanded gives \<open>None\<close> for every point.
  In every run, a pass whose hit test gives an action, whose menu dwell fires, or after
  which the overlay is expanded, comes at or after a pass whose screen point was inside
  the base circle of the overlay.
\<close>

theorem menu_action_needs_base_circle:
  "(\<not> expanded ov \<longrightarrow> action_at L ov x y = None)
   \<and> (run L c opened pw ph fs = (effs, tr, res) \<and> k < length tr
        \<and> (action (tr ! k) \<noteq> None \<or> menu_fired (tr ! k) \<or> expanded (ovl (tr ! k)))
      \<longrightarrow> (\<exists>j\<le>k. \<exists>p. screen_xy (tr ! j) = Some p
              \<and> is_in_base_circle (CircularMenuOverlay_init pw ph) (fst p) (snd p)))"
proof -
  have init: "\<not> expanded (CircularMenuOverlay_init pw ph)"
    by (simp add: CircularMenuOverlay_init_def)
  have "\<exists>j\<le>k. \<exists>p. screen_xy (tr ! j) = Some p
              \<and> is_in_base_circle (CircularMenuOverlay_init pw ph) (fst p) (snd p)"
    if r: "run L c opened pw ph fs = (effs, tr, res)" and k: "k < length tr"
      and a: "action (tr ! k) \<noteq> None \<or> menu_fired (tr ! k) \<or> expanded (ovl (tr ! k))"
  proof -
    from r k obtain c' fs' where "run_loop L c' (CircularMenuOverlay_init pw ph) fs' = (tr, res)"
      by (auto simp: run_def split: if_splits option.splits prod.splits)
    from run_loop_menu [OF this k a] init show ?thesis by blast
  qed
  then show ?thesis using action_at_collapsed by blast
qed

theorem menu_action_needs_base_circle_witness:
  "action (fst (snd (run example_libs example_controller True 1000 800 menu_frames)) ! 2)
     = Some ''pause''
   \<and> (\<exists>j\<le>2. \<exists>p. screen_xy (fst (snd (run example_libs example_controller True 1000 800
                                         menu_frames)) ! j) = Some p
          \<and> is_in_base_circle (CircularMenuOverlay_init 1000 800) (fst p) (snd p))
   \<and> action_at example_libs (CircularMenuOverlay_init 1000 800) 880 354 = None"
proof -
  let ?run = "run example_libs example_controller True 1000 800 menu_frames"
  let ?tr = "fst (snd ?run)"
  have len: "length ?tr = 3" using arg_cong [OF menu_run, of length] by simp
  have a: "action (?tr ! 2) = Some ''pause''"
    using arg_cong [OF menu_run, of "\<lambda>xs. snd (xs ! 2)"] len by simp
  have r: "?run = (fst ?run, ?tr, snd (snd ?run))" by simp
  note t = menu_action_needs_base_circle [of "CircularMenuOverlay_init 1000 800" example_libs
      880 354 example_controller True 1000 800 menu_frames "fst ?run" ?tr
      "snd (snd ?run)" 2]
  have 1: "\<exists>j\<le>2. \<exists>p. screen_xy (?tr ! j) = Some p
          \<and> is_in_base_circle (CircularMenuOverlay_init 1000 800) (fst p) (snd p)"
    using t r len a by simp
  have 2: "action_at example_libs (CircularMenuOverlay_init 1000 800) 880 354 = None"
    using t by (simp add: CircularMenuOverlay_init_def)
  show ?thesis using a 1 2 by blast
qed

end
